theory Spec2Isabelle
  imports Complex_Main "HOL-Library.Word"
begin

unbundle bit_operations_syntax

section \<open>Data model: records stored in a container\<close>

text \<open>
  The program merges ROOT files. The model covers the part of the ROOT object model that
  the two merge functions touch. A \<open>double\<close> is idealised as a real number: rounding,
  infinities and NaN are outside the model.

  A histogram (\<open>TH1\<close> and its 2D/3D descendants) has a dimension, the number of regular
  bins of each axis (an unused axis has one bin, which is what \<open>GetNbinsY\<close> and
  \<open>GetNbinsZ\<close> return for it), the bin edges of the axes, the cell array \<open>fArray\<close> (guard bins included), the array
  of squared errors \<open>fSumw2\<close> (empty while not allocated) and the entry count.
\<close>

record TH1 =
  hName :: string
  fDimension :: nat
  fNbinsX :: nat
  fNbinsY :: nat
  fNbinsZ :: nat
  fEdges :: "real list list"
  fArray :: "real list"
  fSumw2 :: "real list"
  fEntries :: nat

text \<open>
  A \<open>TParameter<T>\<close> stores one value of type \<open>T\<close>. The integer variants carry the bits
  of the stored value. The 4-byte variants are followed in the object by 4 bytes that are
  not part of the value; the second field holds them, and the \<open>float\<close> variant carries the
  bit pattern of its value.
\<close>

datatype pval =
    ValDouble real
  | ValLong64 "64 word"
  | ValInt "32 word" "32 word"
  | ValFloat "32 word" "32 word"

type_synonym row = "int list"

text \<open>
  What a key of a directory gives when it is read with \<open>key->ReadObj()\<close>: a histogram,
  a parameter, a tree, a directory, a collection (\<open>TList\<close>, \<open>TObjArray\<close>, ...) with its
  members, or an object of another class; and, for a key whose class the session does not
  know, nothing: \<open>ReadObj\<close> returns the null pointer (\<open>Unknown\<close>, with the name of the
  key).
\<close>

datatype TObject =
    Hist TH1
  | Param string pval
  | Tree string "row list"
  | Dir string "TObject list"
  | Other string string
  | Collection string "TObject list"
  | Unknown string

text \<open>An open input file: its name and the list of its top-level keys, in key order.\<close>

record TFile =
  fName :: string
  fKeys :: "TObject list"

fun GetName :: "TObject \<Rightarrow> string" where
  "GetName (Hist h) = hName h"
| "GetName (Param n v) = n"
| "GetName (Tree n rs) = n"
| "GetName (Dir n ks) = n"
| "GetName (Other n p) = n"
| "GetName (Collection n ms) = n"
| "GetName (Unknown n) = n"

text \<open>
  \<open>TDirectory::Get(name)\<close>: what reading the first key of that name in key order gives
  (the highest cycle comes first), or the null pointer when there is no such key. Names are
  atomic: no \<open>/\<close>, \<open>:\<close> or \<open>;\<close> inside.
\<close>

fun Get :: "TObject list \<Rightarrow> string \<Rightarrow> TObject option" where
  "Get [] n = None"
| "Get (k # ks) n =
     (if GetName k = n then (case k of Unknown m \<Rightarrow> None | _ \<Rightarrow> Some k) else Get ks n)"

text \<open>
  \<open>obj->Write()\<close> is virtual. An object writes itself under its name into the current
  directory. A collection, called without \<open>kSingleKey\<close>, writes no key of its own: it
  calls \<open>Write()\<close> on its members, one by one. A directory of a file that is open for
  reading writes nothing. \<open>written_by\<close> lists the objects that end up written, in order.
\<close>

fun written_by :: "TObject \<Rightarrow> TObject list" where
  "written_by (Collection n ms) = concat (map written_by ms)"
| "written_by (Dir n ks) = []"
| "written_by (Unknown n) = []"
| "written_by obj = [obj]"

subsection \<open>Histogram operations\<close>

definition GetNcells :: "TH1 \<Rightarrow> nat" where
  "GetNcells h =
     (if fDimension h < 2 then fNbinsX h + 2
      else if fDimension h = 2 then (fNbinsX h + 2) * (fNbinsY h + 2)
      else (fNbinsX h + 2) * (fNbinsY h + 2) * (fNbinsZ h + 2))"

text \<open>
  \<open>TH1::GetBin(binx, biny, binz)\<close>: the index of the cell, every coordinate clamped to
  its axis and the coordinates of unused axes ignored. The loop indices of the program are
  never negative, so the coordinates are naturals.
\<close>

definition GetBin :: "TH1 \<Rightarrow> nat \<Rightarrow> nat \<Rightarrow> nat \<Rightarrow> nat" where
  "GetBin h binx biny binz =
     (let bx = min binx (fNbinsX h + 1);
          by' = min biny (fNbinsY h + 1);
          bz = min binz (fNbinsZ h + 1)
      in if fDimension h < 2 then bx
         else if fDimension h = 2 then bx + (fNbinsX h + 2) * by'
         else bx + (fNbinsX h + 2) * (by' + (fNbinsY h + 2) * bz))"

text \<open>\<open>GetBinContent(bin)\<close> clamps the cell index to the last cell.\<close>

definition RetrieveBinContent :: "TH1 \<Rightarrow> nat \<Rightarrow> real" where
  "RetrieveBinContent h bin =
     (let b = min bin (GetNcells h - 1)
      in if b < length (fArray h) then fArray h ! b else 0)"

definition GetBinContent :: "TH1 \<Rightarrow> nat \<Rightarrow> nat \<Rightarrow> nat \<Rightarrow> real" where
  "GetBinContent h i j k = RetrieveBinContent h (GetBin h i j k)"

text \<open>
  \<open>GetBinError(bin)\<close>: the square root of the stored squared error, or of the absolute
  content while \<open>fSumw2\<close> is not allocated.
\<close>

definition GetBinErrorCell :: "TH1 \<Rightarrow> nat \<Rightarrow> real" where
  "GetBinErrorCell h bin =
     (let b = min bin (GetNcells h - 1)
      in if fSumw2 h \<noteq> [] then (if b < length (fSumw2 h) then sqrt (fSumw2 h ! b) else 0)
         else sqrt \<bar>RetrieveBinContent h b\<bar>)"

definition GetBinError :: "TH1 \<Rightarrow> nat \<Rightarrow> nat \<Rightarrow> nat \<Rightarrow> real" where
  "GetBinError h i j k = GetBinErrorCell h (GetBin h i j k)"

text \<open>\<open>Reset()\<close>: contents and squared errors to zero (array sizes kept), no entries.\<close>

definition Reset :: "TH1 \<Rightarrow> TH1" where
  "Reset h = h\<lparr>fArray := map (\<lambda>_. 0) (fArray h),
               fSumw2 := map (\<lambda>_. 0) (fSumw2 h),
               fEntries := 0\<rparr>"

text \<open>
  \<open>SetBinContent(i, j, k, c)\<close> counts an entry and stores into the cell, if the cell
  exists; a 1D histogram takes the first coordinate as the cell index, unclamped. \<open>Sumw2()\<close> allocates the squared errors, copying the absolute contents when the
  histogram has entries. \<open>SetBinError(i, j, k, e)\<close> returns at once for a coordinate beyond
  an axis, allocates the squared errors on first use and stores the square of the error.
\<close>

definition SetBinContent :: "TH1 \<Rightarrow> nat \<Rightarrow> nat \<Rightarrow> nat \<Rightarrow> real \<Rightarrow> TH1" where
  "SetBinContent h i j k c =
     (let bin = (if fDimension h < 2 then i else GetBin h i j k);
          h1 = h\<lparr>fEntries := fEntries h + 1\<rparr>
      in if bin < GetNcells h \<and> bin < length (fArray h)
         then h1\<lparr>fArray := (fArray h)[bin := c]\<rparr> else h1)"

definition Sumw2 :: "TH1 \<Rightarrow> TH1" where
  "Sumw2 h =
     h\<lparr>fSumw2 := (if fEntries h > 0 then map abs (fArray h)
                   else map (\<lambda>_. 0) (fArray h))\<rparr>"

definition SetBinError :: "TH1 \<Rightarrow> nat \<Rightarrow> nat \<Rightarrow> nat \<Rightarrow> real \<Rightarrow> TH1" where
  "SetBinError h i j k e =
     (if fNbinsX h + 1 < i \<or> fNbinsY h + 1 < j \<or> fNbinsZ h + 1 < k then h
      else (let bin = GetBin h i j k
            in if GetNcells h \<le> bin then h
               else (let h1 = (if fSumw2 h = [] then Sumw2 h else h)
                     in h1\<lparr>fSumw2 := (fSumw2 h1)[bin := e * e]\<rparr>)))"

subsection \<open>Reading a parameter through a pointer of another type\<close>

text \<open>
  Both merge functions read every parameter as \<open>((TParameter<double>*) p)->GetVal()\<close>,
  whatever its declared type. \<open>GetVal\<close> is a plain read of the member \<open>fVal\<close>, so for a
  parameter that is not a \<open>double\<close> the read takes the 8 bytes at the member's place and
  interprets them as an IEEE-754 binary64 value (little-endian layout: a 4-byte value is
  the low half, the 4 bytes behind it the high half). \<open>double_of_bits\<close> is the value of a
  finite bit pattern; the patterns of infinities and NaN (exponent field 2047, as for a
  negative \<open>Long64_t\<close> close to zero) have no value in the reals: the model reads them as
  0, and no theorem below reads such a pattern.
\<close>

definition double_of_bits :: "64 word \<Rightarrow> real" where
  "double_of_bits w =
     (let e = unat (drop_bit 52 w AND 0x7FF);
          m = unat (w AND 0xFFFFFFFFFFFFF);
          s = (if bit w 63 then - 1 else 1)
      in if e = 0 then s * real m / 2 ^ 1074
         else if e = 2047 then 0
         else if 1075 \<le> e then s * real (2 ^ 52 + m) * 2 ^ (e - 1075)
         else s * real (2 ^ 52 + m) / 2 ^ (1075 - e))"

fun GetVal_as_double :: "pval \<Rightarrow> real" where
  "GetVal_as_double (ValDouble d) = d"
| "GetVal_as_double (ValLong64 w) = double_of_bits w"
| "GetVal_as_double (ValInt v tail) = double_of_bits (ucast v OR push_bit 32 (ucast tail))"
| "GetVal_as_double (ValFloat v tail) = double_of_bits (ucast v OR push_bit 32 (ucast tail))"

section \<open>The state the merge acts on\<close>

text \<open>
  ROOT keeps a global current directory, \<open>gDirectory\<close>: \<open>d->cd()\<close> sets it and
  \<open>obj->Write()\<close> writes into it. Everything the program does to the outside is kept as a
  trace of events, in program order: messages on the two streams, progress reports,
  directories made and objects written in the output file (with the directory they went
  to), and files closed.
\<close>

datatype cursor = InInput string | InOutput "string list"

datatype event =
    Stdout string
  | Stderr string
  | Progress nat nat
  | Mkdir "string list" string
  | Write cursor TObject
  | Close string

record state =
  gDirectory :: cursor
  trace :: "event list"

datatype crash = NullPointer | BadCast

definition emit :: "event \<Rightarrow> state \<Rightarrow> state" where
  "emit e st = st\<lparr>trace := trace st @ [e]\<rparr>"

definition cd :: "cursor \<Rightarrow> state \<Rightarrow> state" where
  "cd c st = st\<lparr>gDirectory := c\<rparr>"

definition WriteObj :: "TObject \<Rightarrow> state \<Rightarrow> state" where
  "WriteObj obj st = emit (Write (gDirectory st) obj) st"

definition Write_virtual :: "TObject \<Rightarrow> state \<Rightarrow> state" where
  "Write_virtual obj st = foldl (\<lambda>s member. WriteObj member s) st (written_by obj)"

text \<open>
  \<open>outputDir->mkdir(name)\<close> returns the null pointer for an empty name and when the
  directory already holds a key of that name, whatever its class (ROOT reports "An object
  with name ... exists already"); otherwise it makes the directory. It does not change
  \<open>gDirectory\<close>.
\<close>

definition has_key :: "event list \<Rightarrow> string list \<Rightarrow> string \<Rightarrow> bool" where
  "has_key tr od n =
     list_ex (\<lambda>e. case e of Mkdir p m \<Rightarrow> p = od \<and> m = n
                  | Write c obj \<Rightarrow> c = InOutput od \<and> GetName obj = n
                  | _ \<Rightarrow> False) tr"

definition mkdir :: "string list \<Rightarrow> string \<Rightarrow> state \<Rightarrow> string list option \<times> state" where
  "mkdir od n st =
     (if n = [] \<or> has_key (trace st) od n then (None, st)
      else (Some (od @ [n]), emit (Mkdir od n) st))"

text \<open>
  \<open>d->GetPath()\<close> is the full path of a directory, the name of its file included:
  \<open>file.root:/dir1/dir2\<close>. \<open>f->GetDirectory(path)\<close> splits such a path at the colon,
  looks the file up by name in the list of open files
  (\<open>gROOT->GetListOfFiles()->FindObject\<close>), whatever \<open>f\<close> is, and walks the directories
  from that file's top; a component that is missing or is not a directory gives the null
  pointer. The input files are open under different names, and the output file under a
  name none of them has, so the list is the list of input files. The result carries the
  file name and the path, for \<open>GetPath\<close>, and the keys.
\<close>

type_synonym dirpath = "string \<times> string list"

definition PathString :: "dirpath \<Rightarrow> string" where
  "PathString p = fst p @ '':'' @ (if snd p = [] then ''/'' else concat (map (\<lambda>d. ''/'' @ d) (snd p)))"

fun walk :: "TObject list \<Rightarrow> string list \<Rightarrow> TObject list option" where
  "walk ks [] = Some ks"
| "walk ks (d # ds) = (case Get ks d of Some (Dir n sub) \<Rightarrow> walk sub ds | _ \<Rightarrow> None)"

definition GetDirectory :: "TFile list \<Rightarrow> TFile \<Rightarrow> dirpath \<Rightarrow> (dirpath \<times> TObject list) option" where
  "GetDirectory listOfFiles this apath =
     (case find (\<lambda>g. fName g = fst apath) listOfFiles of
        None \<Rightarrow> None
      | Some g \<Rightarrow> (case walk (fKeys g) (snd apath) of
                    None \<Rightarrow> None
                  | Some ks \<Rightarrow> Some ((fName g, snd apath), ks)))"

text \<open>The line on the error stream for a record that a file lacks.\<close>

definition not_found :: "string \<Rightarrow> string \<Rightarrow> string \<Rightarrow> string" where
  "not_found kind nm fileName = kind @ '' '' @ nm @ '' not found in file '' @ fileName"

text \<open>A loop whose body may crash: the first crash ends it.\<close>

fun forM :: "'a list \<Rightarrow> ('a \<Rightarrow> 's \<Rightarrow> crash + 's) \<Rightarrow> 's \<Rightarrow> crash + 's" where
  "forM [] body s = Inr s"
| "forM (x # xs) body s = (case body x s of Inl c \<Rightarrow> Inl c | Inr s' \<Rightarrow> forM xs body s')"

section \<open>The histogram strategy\<close>

text \<open>
  \<open>std::accumulate\<close> and \<open>std::inner_product\<close> run from the left, starting at 0.0; the
  element count is converted to \<open>double\<close> by the division. The model computes in the
  reals. The program rounds every operation to binary64: on values that are not exact
  there its mean differs in the last place, and the radicand can round below zero, where
  \<open>std::sqrt\<close> gives NaN. The claims are settled on inputs with small integer values,
  which binary64 holds and computes exactly.
\<close>

definition mean_of :: "real list \<Rightarrow> real" where
  "mean_of binContents = foldl (+) 0 binContents / real (length binContents)"

definition stddev_of :: "real list \<Rightarrow> real" where
  "stddev_of binContents =
     sqrt (foldl (\<lambda>a v. a + v * v) 0 binContents / real (length binContents)
           - mean_of binContents * mean_of binContents)"

definition store_stats :: "TH1 \<Rightarrow> nat \<Rightarrow> nat \<Rightarrow> nat \<Rightarrow> real list \<Rightarrow> TH1" where
  "store_stats histClone i j k binContents =
     (if binContents \<noteq> []
      then SetBinError (SetBinContent histClone i j k (mean_of binContents)) i j k
             (stddev_of binContents)
      else histClone)"

text \<open>The three nested \<open>for\<close> loops visit the coordinates in this order.\<close>

definition bin_coords :: "nat \<Rightarrow> nat \<Rightarrow> nat \<Rightarrow> (nat \<times> nat \<times> nat) list" where
  "bin_coords nBinsX nBinsY nBinsZ =
     concat (map (\<lambda>i. concat (map (\<lambda>j. map (\<lambda>k. (i, j, k)) [0..<nBinsZ]) [0..<nBinsY]))
                 [0..<nBinsX])"

text \<open>
  Root level, source lines 109-118: one input file's contribution to one bin. The result
  of \<open>Get\<close> is cast to \<open>TH1*\<close> unchecked; calling \<open>GetBinContent\<close> on an object that is
  not a histogram has no defined behaviour (\<open>BadCast\<close>).
\<close>

definition collect_root :: "string \<Rightarrow> nat \<Rightarrow> nat \<Rightarrow> nat \<Rightarrow> TFile
    \<Rightarrow> real list \<times> state \<Rightarrow> crash + real list \<times> state" where
  "collect_root nm i j k file = (\<lambda>(binContents, st).
     case Get (fKeys file) nm of
       None \<Rightarrow> Inr (binContents,
                 emit (Stderr (not_found ''Histogram'' nm (fName file))) st)
     | Some (Hist h) \<Rightarrow> Inr (binContents @ [GetBinContent h i j k], st)
     | Some _ \<Rightarrow> Inl BadCast)"

text \<open>Nested level, source lines 245-254: no message when the histogram is missing.\<close>

definition collect_dir :: "TFile list \<Rightarrow> dirpath \<Rightarrow> string \<Rightarrow> nat \<Rightarrow> nat \<Rightarrow> nat \<Rightarrow> TFile
    \<Rightarrow> real list \<times> state \<Rightarrow> crash + real list \<times> state" where
  "collect_dir inputFiles sourcePath nm i j k file = (\<lambda>(binContents, st).
     case GetDirectory inputFiles file sourcePath of
       None \<Rightarrow> Inr (binContents, st)
     | Some (p, ks) \<Rightarrow>
         (case Get ks nm of
            None \<Rightarrow> Inr (binContents, st)
          | Some (Hist h) \<Rightarrow> Inr (binContents @ [GetBinContent h i j k], st)
          | Some _ \<Rightarrow> Inl BadCast))"

text \<open>The body of the innermost loop, with the collecting loop as a parameter.\<close>

definition bin_body :: "(nat \<Rightarrow> nat \<Rightarrow> nat \<Rightarrow> TFile \<Rightarrow> real list \<times> state \<Rightarrow> crash + real list \<times> state)
    \<Rightarrow> TFile list \<Rightarrow> nat \<times> nat \<times> nat \<Rightarrow> TH1 \<times> state \<Rightarrow> crash + TH1 \<times> state" where
  "bin_body collect inputFiles = (\<lambda>(i, j, k) (histClone, st).
     case forM inputFiles (collect i j k) ([], st) of
       Inl c \<Rightarrow> Inl c
     | Inr (binContents, st') \<Rightarrow> Inr (store_stats histClone i j k binContents, st'))"

definition bin_loops :: "(nat \<Rightarrow> nat \<Rightarrow> nat \<Rightarrow> TFile \<Rightarrow> real list \<times> state \<Rightarrow> crash + real list \<times> state)
    \<Rightarrow> TFile list \<Rightarrow> TH1 \<Rightarrow> state \<Rightarrow> crash + TH1 \<times> state" where
  "bin_loops collect inputFiles histClone st =
     forM (bin_coords (fNbinsX histClone + 2) (fNbinsY histClone + 2) (fNbinsZ histClone + 2))
       (bin_body collect inputFiles) (histClone, st)"

text \<open>Source lines 89-137: \<open>outputFile->cd()\<close>, clone, reset, loops, write.\<close>

definition hist_root :: "TFile list \<Rightarrow> TH1 \<Rightarrow> state \<Rightarrow> crash + state" where
  "hist_root inputFiles h st =
     (let st1 = cd (InOutput []) st; histClone = Reset h
      in case bin_loops (collect_root (hName histClone)) inputFiles histClone st1 of
           Inl c \<Rightarrow> Inl c
         | Inr (hc, st2) \<Rightarrow> Inr (WriteObj (Hist hc) st2))"

text \<open>
  Source lines 231-270: the same without a \<open>cd\<close>; the clone is written to whatever
  \<open>gDirectory\<close> is at that moment.
\<close>

definition hist_dir :: "TFile list \<Rightarrow> dirpath \<Rightarrow> TH1 \<Rightarrow> state \<Rightarrow> crash + state" where
  "hist_dir inputFiles sourcePath h st =
     (let histClone = Reset h
      in case bin_loops (collect_dir inputFiles sourcePath (hName histClone)) inputFiles histClone st of
           Inl c \<Rightarrow> Inl c
         | Inr (hc, st2) \<Rightarrow> Inr (WriteObj (Hist hc) st2))"

section \<open>The parameter strategy\<close>

text \<open>Source lines 150-165 and 277-295. The cast to \<open>TParameter<double>*\<close> is unchecked.\<close>

definition param_add_root :: "string \<Rightarrow> TFile \<Rightarrow> real \<times> state \<Rightarrow> crash + real \<times> state" where
  "param_add_root objName file = (\<lambda>(totalValue, st).
     case Get (fKeys file) objName of
       None \<Rightarrow> Inr (totalValue,
                 emit (Stderr (not_found ''Parameter'' objName (fName file))) st)
     | Some (Param n v) \<Rightarrow> Inr (totalValue + GetVal_as_double v, st)
     | Some _ \<Rightarrow> Inl BadCast)"

definition param_root :: "TFile list \<Rightarrow> string \<Rightarrow> state \<Rightarrow> crash + state" where
  "param_root inputFiles objName st =
     (case forM inputFiles (param_add_root objName) (0, st) of
        Inl c \<Rightarrow> Inl c
      | Inr (totalValue, st1) \<Rightarrow>
          Inr (WriteObj (Param objName (ValDouble totalValue)) (cd (InOutput []) st1)))"

definition param_add_dir :: "TFile list \<Rightarrow> dirpath \<Rightarrow> string \<Rightarrow> TFile
    \<Rightarrow> real \<times> state \<Rightarrow> crash + real \<times> state" where
  "param_add_dir inputFiles sourcePath objName file = (\<lambda>(totalValue, st).
     case GetDirectory inputFiles file sourcePath of
       None \<Rightarrow> Inr (totalValue, st)
     | Some (p, ks) \<Rightarrow>
         (case Get ks objName of
            None \<Rightarrow> Inr (totalValue,
                      emit (Stderr (not_found ''Parameter'' objName (fName file))) st)
          | Some (Param n v) \<Rightarrow> Inr (totalValue + GetVal_as_double v, st)
          | Some _ \<Rightarrow> Inl BadCast))"

definition param_dir :: "TFile list \<Rightarrow> dirpath \<Rightarrow> string list \<Rightarrow> string \<Rightarrow> state \<Rightarrow> crash + state" where
  "param_dir inputFiles sourcePath outputDir objName st =
     (case forM inputFiles (param_add_dir inputFiles sourcePath objName) (0, st) of
        Inl c \<Rightarrow> Inl c
      | Inr (totalValue, st1) \<Rightarrow>
          Inr (WriteObj (Param objName (ValDouble totalValue)) (cd (InOutput outputDir) st1)))"

section \<open>The tree strategy\<close>

text \<open>
  A \<open>TChain\<close> is the list of the element names given to \<open>Add\<close>. What the chain finds under
  an element name is the business of ROOT's chain code, which opens the files again by
  name: the model takes it as a parameter \<open>ld\<close> (the rows under that name, or nothing).
  \<open>CloneTree(-1, "fast")\<close> copies the entries of the elements that load, in chain order;
  with no element that loads there is no tree to clone and the program goes on with a
  null pointer.
\<close>

type_synonym loader = "string \<Rightarrow> row list option"

definition CloneTree :: "loader \<Rightarrow> string \<Rightarrow> string list \<Rightarrow> TObject option" where
  "CloneTree ld objName chain =
     (let loaded = List.map_filter ld chain
      in if loaded = [] then None else Some (Tree objName (concat loaded)))"

text \<open>Source lines 173-181: only the null check is made on the result of \<open>Get\<close>.\<close>

definition chain_add_root :: "string \<Rightarrow> string list \<times> state \<Rightarrow> TFile \<Rightarrow> string list \<times> state" where
  "chain_add_root objName = (\<lambda>(chain, st) file.
     case Get (fKeys file) objName of
       None \<Rightarrow> (chain, emit (Stderr (not_found ''Tree'' objName (fName file))) st)
     | Some tree \<Rightarrow> (chain @ [fName file @ ''/'' @ objName], st))"

definition tree_root :: "loader \<Rightarrow> TFile list \<Rightarrow> string \<Rightarrow> state \<Rightarrow> crash + state" where
  "tree_root ld inputFiles objName st =
     (let (chain, st1) = foldl (chain_add_root objName) ([], st) inputFiles;
          st2 = cd (InOutput []) st1
      in case CloneTree ld objName chain of
           None \<Rightarrow> Inl NullPointer
         | Some mergedTree \<Rightarrow> Inr (WriteObj mergedTree st2))"

text \<open>Source lines 300-308: the element name is built from \<open>dir->GetPath()\<close>.\<close>

definition chain_add_dir :: "TFile list \<Rightarrow> dirpath \<Rightarrow> string \<Rightarrow> string list \<times> state \<Rightarrow> TFile
    \<Rightarrow> string list \<times> state" where
  "chain_add_dir inputFiles sourcePath objName = (\<lambda>(chain, st) file.
     case GetDirectory inputFiles file sourcePath of
       None \<Rightarrow> (chain, st)
     | Some (p, ks) \<Rightarrow>
         (case Get ks objName of
            None \<Rightarrow> (chain, st)
          | Some tree \<Rightarrow> (chain @ [fName file @ ''/'' @ PathString p @ ''/'' @ objName], st)))"

definition tree_dir :: "loader \<Rightarrow> TFile list \<Rightarrow> dirpath \<Rightarrow> string list \<Rightarrow> string \<Rightarrow> state
    \<Rightarrow> crash + state" where
  "tree_dir ld inputFiles sourcePath outputDir objName st =
     (let (chain, st1) = foldl (chain_add_dir inputFiles sourcePath objName) ([], st) inputFiles;
          st2 = cd (InOutput outputDir) st1
      in case CloneTree ld objName chain of
           None \<Rightarrow> Inl NullPointer
         | Some mergedTree \<Rightarrow> Inr (WriteObj mergedTree st2))"

section \<open>The two traversals\<close>

text \<open>
  \<open>MergeDirectories\<close> (source lines 221-326). \<open>MergeDirectories_keys\<close> is its \<open>while\<close>
  loop over the keys of \<open>sourceDir\<close>; the recursive call for a sub-directory is written
  with the callee's first statement, \<open>outputDir->cd()\<close>, in place, and crashes on the null
  pointer that \<open>mkdir\<close> may have returned. \<open>sourcePath\<close> is \<open>sourceDir->GetPath()\<close>.

  In both traversals the loop starts with \<open>obj = key->ReadObj()\<close> and \<open>obj->GetName()\<close>,
  with no check: a key that reads as the null pointer ends the run there. The last branch
  is \<open>obj->Write()\<close>, the virtual call: one write for an object of a plain class, the
  members one by one for a collection.
\<close>

fun MergeDirectories_keys :: "loader \<Rightarrow> TFile list \<Rightarrow> dirpath \<Rightarrow> string list \<Rightarrow> TObject list
    \<Rightarrow> state \<Rightarrow> crash + state" where
  "MergeDirectories_keys ld inputFiles sourcePath outputDir [] st = Inr st"
| "MergeDirectories_keys ld inputFiles sourcePath outputDir (Hist h # keys) st =
     (case hist_dir inputFiles sourcePath h st of
        Inl c \<Rightarrow> Inl c
      | Inr st1 \<Rightarrow> MergeDirectories_keys ld inputFiles sourcePath outputDir keys st1)"
| "MergeDirectories_keys ld inputFiles sourcePath outputDir (Param objName v # keys) st =
     (case param_dir inputFiles sourcePath outputDir objName st of
        Inl c \<Rightarrow> Inl c
      | Inr st1 \<Rightarrow> MergeDirectories_keys ld inputFiles sourcePath outputDir keys st1)"
| "MergeDirectories_keys ld inputFiles sourcePath outputDir (Tree objName rs # keys) st =
     (case tree_dir ld inputFiles sourcePath outputDir objName st of
        Inl c \<Rightarrow> Inl c
      | Inr st1 \<Rightarrow> MergeDirectories_keys ld inputFiles sourcePath outputDir keys st1)"
| "MergeDirectories_keys ld inputFiles sourcePath outputDir (Dir objName sub # keys) st =
     (case mkdir outputDir objName st of
        (None, st1) \<Rightarrow> Inl NullPointer
      | (Some newSubDir, st1) \<Rightarrow>
          (case MergeDirectories_keys ld inputFiles (fst sourcePath, snd sourcePath @ [objName])
                  newSubDir sub (cd (InOutput newSubDir) st1) of
             Inl c \<Rightarrow> Inl c
           | Inr st2 \<Rightarrow> MergeDirectories_keys ld inputFiles sourcePath outputDir keys st2))"
| "MergeDirectories_keys ld inputFiles sourcePath outputDir (Other objName p # keys) st =
     MergeDirectories_keys ld inputFiles sourcePath outputDir keys
       (WriteObj (Other objName p) (cd (InOutput outputDir) st))"
| "MergeDirectories_keys ld inputFiles sourcePath outputDir (Collection objName ms # keys) st =
     MergeDirectories_keys ld inputFiles sourcePath outputDir keys
       (Write_virtual (Collection objName ms) (cd (InOutput outputDir) st))"
| "MergeDirectories_keys ld inputFiles sourcePath outputDir (Unknown keyName # keys) st =
     Inl NullPointer"

definition MergeDirectories :: "loader \<Rightarrow> dirpath \<Rightarrow> TObject list \<Rightarrow> TFile list
    \<Rightarrow> string list option \<Rightarrow> state \<Rightarrow> crash + state" where
  "MergeDirectories ld sourcePath sourceKeys inputFiles outputDir st =
     (case outputDir of
        None \<Rightarrow> Inl NullPointer
      | Some od \<Rightarrow> MergeDirectories_keys ld inputFiles sourcePath od sourceKeys (cd (InOutput od) st))"

text \<open>
  The body of the \<open>while\<close> loop of \<open>MergeSingleGenFiles\<close> (source lines 84-202) for one
  key of the first file, whose name is \<open>firstName\<close>.
\<close>

fun root_step :: "loader \<Rightarrow> TFile list \<Rightarrow> string \<Rightarrow> TObject \<Rightarrow> state \<Rightarrow> crash + state" where
  "root_step ld inputFiles firstName (Hist h) st = hist_root inputFiles h st"
| "root_step ld inputFiles firstName (Param objName v) st = param_root inputFiles objName st"
| "root_step ld inputFiles firstName (Tree objName rs) st = tree_root ld inputFiles objName st"
| "root_step ld inputFiles firstName (Dir objName sub) st =
     (let st1 = emit (Stderr (''Processing subdirectory: '' @ objName)) st;
          (newDir, st2) = mkdir [] objName (cd (InOutput []) st1)
      in MergeDirectories ld (firstName, [objName]) sub inputFiles newDir st2)"
| "root_step ld inputFiles firstName (Other objName p) st =
     Inr (WriteObj (Other objName p) (cd (InOutput []) st))"
| "root_step ld inputFiles firstName (Collection objName ms) st =
     Inr (Write_virtual (Collection objName ms) (cd (InOutput []) st))"
| "root_step ld inputFiles firstName (Unknown keyName) st = Inl NullPointer"

fun root_keys :: "loader \<Rightarrow> TFile list \<Rightarrow> string \<Rightarrow> nat \<Rightarrow> nat \<Rightarrow> TObject list \<Rightarrow> state
    \<Rightarrow> crash + state" where
  "root_keys ld inputFiles firstName totalObjs objCount [] st = Inr st"
| "root_keys ld inputFiles firstName totalObjs objCount (obj # keys) st =
     (case root_step ld inputFiles firstName obj st of
        Inl c \<Rightarrow> Inl c
      | Inr st1 \<Rightarrow> root_keys ld inputFiles firstName totalObjs (objCount + 1) keys
                    (emit (Progress (objCount + 1) totalObjs) st1))"

section \<open>The driver\<close>

text \<open>
  One entry of the working directory, as \<open>fs::directory_iterator\<close> yields it: whether it
  is a directory, its path, and the keys of \<open>PairGen.root\<close> inside it when that file
  opens (nothing when \<open>TFile::Open\<close> fails or gives a zombie). Opening a file makes it
  the current directory.
\<close>

record entry =
  is_directory :: bool
  path :: string
  opens :: "TObject list option"

definition outputFileName :: string where
  "outputFileName = ''PairGenMerged.root''"

definition scan_entry :: "TFile list \<times> state \<Rightarrow> entry \<Rightarrow> TFile list \<times> state" where
  "scan_entry = (\<lambda>(inputFiles, st) e.
     if is_directory e then
       (let fileName = path e @ ''/PairGen.root''
        in case opens e of
             Some ks \<Rightarrow>
               (inputFiles @ [\<lparr>fName = fileName, fKeys = ks\<rparr>],
                emit (Stdout (''File '' @ fileName @ '' is found and opened successfully.''))
                  (cd (InInput fileName) st))
           | None \<Rightarrow>
               (inputFiles, emit (Stderr (''File '' @ fileName @ '' not found or is corrupted!'')) st))
     else (inputFiles, st))"

definition close_inputs :: "TFile list \<Rightarrow> state \<Rightarrow> state" where
  "close_inputs inputFiles st = foldl (\<lambda>s file. emit (Close (fName file)) s) st inputFiles"

text \<open>
  \<open>merge_opened\<close> is \<open>MergeSingleGenFiles\<close> from source line 56 on, after the scan;
  \<open>creatable\<close> says whether the output file can be created. The function returns nothing:
  the three ways it returns differ by what is in the trace.
\<close>

definition merge_opened :: "loader \<Rightarrow> bool \<Rightarrow> TFile list \<Rightarrow> state \<Rightarrow> crash + state" where
  "merge_opened ld creatable inputFiles st =
     (case inputFiles of
        [] \<Rightarrow> Inr (emit (Stderr ''No files found for merging.'') st)
      | firstDir # others \<Rightarrow>
          if \<not> creatable then
            Inr (close_inputs inputFiles
                   (emit (Stderr (''Failed to create the output file '' @ outputFileName)) st))
          else
            (let st1 = emit (Stdout (''Merging files into '' @ outputFileName @ ''...''))
                         (cd (InOutput []) st);
                 st2 = cd (InInput (fName firstDir)) st1
             in case root_keys ld inputFiles (fName firstDir) (length (fKeys firstDir)) 0
                       (fKeys firstDir) st2 of
                  Inl c \<Rightarrow> Inl c
                | Inr st3 \<Rightarrow>
                    Inr (emit (Stdout ''Merging completed successfully.'')
                          (emit (Close outputFileName)
                            (close_inputs inputFiles (emit (Stdout [CHR 0x0A]) st3))))))"

text \<open>
  Before a file is open the current directory is ROOT's own top directory, written here
  as a cursor of that name outside the output file.
\<close>

definition init_state :: state where
  "init_state = \<lparr>gDirectory = InInput ''Rint'', trace = []\<rparr>"

definition MergeSingleGenFiles :: "loader \<Rightarrow> bool \<Rightarrow> entry list \<Rightarrow> crash + state" where
  "MergeSingleGenFiles ld creatable entries =
     (let (inputFiles, st) = foldl scan_entry ([], init_state) entries
      in merge_opened ld creatable inputFiles st)"

section \<open>Observations on a trace\<close>

fun writes :: "event list \<Rightarrow> (cursor \<times> TObject) list" where
  "writes [] = []"
| "writes (Write c obj # es) = (c, obj) # writes es"
| "writes (e # es) = writes es"

fun stderr_lines :: "event list \<Rightarrow> string list" where
  "stderr_lines [] = []"
| "stderr_lines (Stderr s # es) = s # stderr_lines es"
| "stderr_lines (e # es) = stderr_lines es"

fun closes :: "event list \<Rightarrow> string list" where
  "closes [] = []"
| "closes (Close s # es) = s # closes es"
| "closes (e # es) = closes es"

section \<open>Small inputs\<close>

text \<open>
  A 1D histogram \<open>h\<close> with one regular bin holding \<open>v\<close> between its two guard bins, and
  a sub-directory of the working directory whose \<open>PairGen.root\<close> opens with given keys.
\<close>

definition one_bin :: "string \<Rightarrow> real \<Rightarrow> TH1" where
  "one_bin nm v = \<lparr>hName = nm, fDimension = 1, fNbinsX = 1, fNbinsY = 1, fNbinsZ = 1,
     fEdges = [[0, 1]], fArray = [0, v, 0], fSumw2 = [], fEntries = 1\<rparr>"

definition run_dir :: "string \<Rightarrow> TObject list \<Rightarrow> entry" where
  "run_dir p ks = \<lparr>is_directory = True, path = p, opens = Some ks\<rparr>"

definition two_runs :: "TObject list \<Rightarrow> TObject list \<Rightarrow> entry list" where
  "two_runs ks1 ks2 = [run_dir ''./a'' ks1, run_dir ''./b'' ks2]"

text \<open>
  A loader that finds the rows of a top-level tree under the element name
  \<open>file.root/tree\<close> of an input file, and nothing under any other name.
\<close>

definition file_loader :: "TFile list \<Rightarrow> loader" where
  "file_loader inputFiles s =
     (case find (\<lambda>(f, n). s = fName f @ ''/'' @ n)
             (concat (map (\<lambda>f. map (\<lambda>k. (f, GetName k)) (fKeys f)) inputFiles)) of
        None \<Rightarrow> None
      | Some (f, n) \<Rightarrow> (case Get (fKeys f) n of Some (Tree m rs) \<Rightarrow> Some rs | _ \<Rightarrow> None))"

section \<open>What the claims say of the merged records\<close>

text \<open>
  The values the claims speak of, written down from their words: the contents of one bin,
  the values of one parameter and the rows of one tree, over the files that hold the
  record under its name, in input order; and the files that lack it.
\<close>

definition bin_values :: "string \<Rightarrow> nat \<Rightarrow> nat \<Rightarrow> nat \<Rightarrow> TFile list \<Rightarrow> real list" where
  "bin_values nm i j k files =
     concat (map (\<lambda>f. case Get (fKeys f) nm of Some (Hist g) \<Rightarrow> [GetBinContent g i j k] | _ \<Rightarrow> [])
                 files)"

definition param_values :: "string \<Rightarrow> TFile list \<Rightarrow> real list" where
  "param_values nm files =
     concat (map (\<lambda>f. case Get (fKeys f) nm of Some (Param n (ValDouble d)) \<Rightarrow> [d] | _ \<Rightarrow> [])
                 files)"

definition tree_rows :: "string \<Rightarrow> TFile list \<Rightarrow> row list" where
  "tree_rows nm files =
     concat (map (\<lambda>f. case Get (fKeys f) nm of Some (Tree n rs) \<Rightarrow> rs | _ \<Rightarrow> []) files)"

definition lacking :: "string \<Rightarrow> TFile list \<Rightarrow> string list" where
  "lacking nm files = map fName (filter (\<lambda>f. Get (fKeys f) nm = None) files)"

text \<open>
  The names of the keys of a directory and of everything below it, each directory before
  its contents and the names of its members in place of a collection; and the names of
  the directories made and the objects written in a trace.
\<close>

fun preorder :: "TObject list \<Rightarrow> string list" where
  "preorder [] = []"
| "preorder (Dir n sub # ks) = n # preorder sub @ preorder ks"
| "preorder (Collection n ms # ks) = map GetName (written_by (Collection n ms)) @ preorder ks"
| "preorder (k # ks) = GetName k # preorder ks"

fun out_names :: "event list \<Rightarrow> string list" where
  "out_names [] = []"
| "out_names (Mkdir p n # es) = n # out_names es"
| "out_names (Write c obj # es) = GetName obj # out_names es"
| "out_names (e # es) = out_names es"

text \<open>Appending lines to the error stream.\<close>

definition report :: "string list \<Rightarrow> state \<Rightarrow> state" where
  "report msgs st = st\<lparr>trace := trace st @ map Stderr msgs\<rparr>"

text \<open>
  Conditions on the inputs under which the root-level strategies are described below:
  what the files hold under a name has the kind of the first file's record, and the
  loader finds the top-level trees under the element names \<open>file/tree\<close>.
\<close>

definition double_params :: "string \<Rightarrow> TFile list \<Rightarrow> bool" where
  "double_params nm files \<longleftrightarrow>
     (\<forall>f\<in>set files. case Get (fKeys f) nm of
                        None \<Rightarrow> True | Some (Param n (ValDouble d)) \<Rightarrow> True | Some _ \<Rightarrow> False)"

definition top_name :: "string \<Rightarrow> TFile \<Rightarrow> string" where
  "top_name nm f = fName f @ ''/'' @ nm"

definition rows_in :: "string \<Rightarrow> TFile \<Rightarrow> row list option" where
  "rows_in nm f = (case Get (fKeys f) nm of Some (Tree n rs) \<Rightarrow> Some rs | _ \<Rightarrow> None)"

definition holding :: "string \<Rightarrow> TFile list \<Rightarrow> TFile list" where
  "holding nm files = filter (\<lambda>f. Get (fKeys f) nm \<noteq> None) files"

definition loads_top_trees :: "loader \<Rightarrow> TFile list \<Rightarrow> string \<Rightarrow> bool" where
  "loads_top_trees ld files nm \<longleftrightarrow> (\<forall>f\<in>set files. ld (top_name nm f) = rows_in nm f)"

definition holds_tree :: "string \<Rightarrow> TFile list \<Rightarrow> bool" where
  "holds_tree nm files \<longleftrightarrow> list_ex (\<lambda>f. rows_in nm f \<noteq> None) files"

definition hists_only :: "string \<Rightarrow> TFile list \<Rightarrow> bool" where
  "hists_only nm files \<longleftrightarrow>
     (\<forall>f\<in>set files. case Get (fKeys f) nm of None \<Rightarrow> True | Some (Hist g) \<Rightarrow> True | Some _ \<Rightarrow> False)"

definition store_bin :: "string \<Rightarrow> TFile list \<Rightarrow> TH1 \<Rightarrow> nat \<times> nat \<times> nat \<Rightarrow> TH1" where
  "store_bin nm fs hc = (\<lambda>(i, j, k). store_stats hc i j k (bin_values nm i j k fs))"

definition in_grid :: "TH1 \<Rightarrow> nat \<times> nat \<times> nat \<Rightarrow> bool" where
  "in_grid h = (\<lambda>(i, j, k). i \<le> fNbinsX h + 1 \<and> j \<le> fNbinsY h + 1 \<and> k \<le> fNbinsZ h + 1)"

definition cell :: "TH1 \<Rightarrow> nat \<times> nat \<times> nat \<Rightarrow> nat" where
  "cell h = (\<lambda>(i, j, k). GetBin h i j k)"

definition same_shape :: "TH1 \<Rightarrow> TH1 \<Rightarrow> bool" where
  "same_shape h hc \<longleftrightarrow>
     hName hc = hName h \<and> fDimension hc = fDimension h \<and> fNbinsX hc = fNbinsX h
     \<and> fNbinsY hc = fNbinsY h \<and> fNbinsZ hc = fNbinsZ h \<and> fEdges hc = fEdges h
     \<and> length (fArray hc) = GetNcells h
     \<and> (fSumw2 hc = [] \<or> length (fSumw2 hc) = GetNcells h)"

definition same_dimension :: "TH1 \<Rightarrow> TFile list \<Rightarrow> bool" where
  "same_dimension h files \<longleftrightarrow>
     (\<forall>f\<in>set files. case Get (fKeys f) (hName h) of
                        None \<Rightarrow> True | Some (Hist g) \<Rightarrow> fDimension g = fDimension h | Some _ \<Rightarrow> False)"

definition holds_hist :: "string \<Rightarrow> TFile list \<Rightarrow> bool" where
  "holds_hist nm files \<longleftrightarrow>
     list_ex (\<lambda>f. case Get (fKeys f) nm of Some (Hist g) \<Rightarrow> True | _ \<Rightarrow> False) files"

section \<open>How a chain finds a tree under an element name\<close>

text \<open>
  A chain splits an element name \<open>file.root/tree\<close> at a slash into the name of a file
  and the name of a tree, opens the file by its name and asks it for the tree with
  \<open>file->Get(tree)\<close>; a name it does not split is the name of a file, and the tree has
  the name of the chain. Where ROOT splits has changed between versions, so the split is
  a parameter (\<open>splitter\<close>); all that is used of it is that it splits at a slash
  (\<open>splits_at_slash\<close>). \<open>split_root\<close> is one such split, behind the first \<open>.root\<close> that
  a slash follows.

  \<open>Get\<close> with a name that has a slash inside asks \<open>GetDirectory\<close> for the part before
  the last slash and looks the rest up there. \<open>GetDirectory\<close> with a path as a string
  first looks for a colon: what stands before it names a file in the list of open files.
  Then it goes down the path from one slash to the next; a leading slash is the top of
  the file.
\<close>

fun split_first :: "char \<Rightarrow> string \<Rightarrow> (string \<times> string) option" where
  "split_first c [] = None"
| "split_first c (x # xs) =
     (if x = c then Some ([], xs)
      else map_option (\<lambda>(a, b). (x # a, b)) (split_first c xs))"

definition split_last :: "char \<Rightarrow> string \<Rightarrow> (string \<times> string) option" where
  "split_last c s = map_option (\<lambda>(a, b). (rev b, rev a)) (split_first c (rev s))"

definition enter :: "TObject list \<Rightarrow> string \<Rightarrow> TObject list option" where
  "enter cur nm = (case Get cur nm of Some (Dir n sub) \<Rightarrow> Some sub | _ \<Rightarrow> None)"

fun walk_chars :: "TObject list \<Rightarrow> TObject list \<Rightarrow> string \<Rightarrow> string \<Rightarrow> TObject list option" where
  "walk_chars fileTop cur acc [] = (if acc = [] then Some cur else enter cur acc)"
| "walk_chars fileTop cur acc (c # cs) =
     (if c = CHR ''/'' then
        (if acc = [] then walk_chars fileTop fileTop [] cs
         else case enter cur acc of None \<Rightarrow> None | Some sub \<Rightarrow> walk_chars fileTop sub [] cs)
      else walk_chars fileTop cur (acc @ [c]) cs)"

definition GetDirectory_named :: "TFile list \<Rightarrow> TFile \<Rightarrow> string \<Rightarrow> TObject list option" where
  "GetDirectory_named listOfFiles this apath =
     (case split_first CHR '':'' apath of
        Some (fileName, rest) \<Rightarrow>
          (case find (\<lambda>g. fName g = fileName) listOfFiles of
             None \<Rightarrow> None
           | Some g \<Rightarrow> walk_chars (fKeys g) (fKeys g) [] rest)
      | None \<Rightarrow> walk_chars (fKeys this) (fKeys this) [] apath)"

definition Get_named :: "TFile list \<Rightarrow> TFile \<Rightarrow> string \<Rightarrow> TObject option" where
  "Get_named listOfFiles this namecycle =
     (case split_last CHR ''/'' namecycle of
        None \<Rightarrow> Get (fKeys this) namecycle
      | Some (dir, n) \<Rightarrow>
          if dir = [] then Get (fKeys this) namecycle
          else (case GetDirectory_named listOfFiles this dir of
                  None \<Rightarrow> None
                | Some ks \<Rightarrow> Get ks n))"

type_synonym splitter = "string \<Rightarrow> (string \<times> string) option"

definition chain_loader :: "splitter \<Rightarrow> TFile list \<Rightarrow> string \<Rightarrow> loader" where
  "chain_loader split filesOnDisk chainName element =
     (let (fileName, treeName) = (case split element of None \<Rightarrow> (element, chainName) | Some ft \<Rightarrow> ft)
      in case find (\<lambda>g. fName g = fileName) filesOnDisk of
           None \<Rightarrow> None
         | Some g \<Rightarrow> (case Get_named filesOnDisk g treeName of
                        Some (Tree n rs) \<Rightarrow> Some rs
                      | _ \<Rightarrow> None))"

definition splits_at_slash :: "splitter \<Rightarrow> bool" where
  "splits_at_slash split \<longleftrightarrow> (\<forall>s f t. split s = Some (f, t) \<longrightarrow> s = f @ ''/'' @ t)"

fun split_root :: splitter where
  "split_root [] = None"
| "split_root (c # cs) =
     (if take 6 (c # cs) = ''.root/'' then Some (''.root'', drop 6 (c # cs))
      else map_option (\<lambda>(f, t). (c # f, t)) (split_root cs))"

text \<open>The files of two runs that hold the tree \<open>t\<close> in the sub-directory \<open>d\<close>.\<close>

definition run_a :: TFile where
  "run_a = \<lparr>fName = ''./a/PairGen.root'', fKeys = [Dir ''d'' [Tree ''t'' [[1]]]]\<rparr>"

definition run_b :: TFile where
  "run_b = \<lparr>fName = ''./b/PairGen.root'', fKeys = [Dir ''d'' [Tree ''t'' [[2]]]]\<rparr>"

lemmas named_defs = split_last_def enter_def GetDirectory_named_def Get_named_def chain_loader_def
  run_a_def run_b_def

lemmas th1_defs = GetNcells_def GetBin_def RetrieveBinContent_def GetBinContent_def
  GetBinErrorCell_def GetBinError_def Reset_def SetBinContent_def Sumw2_def SetBinError_def
  mean_of_def stddev_of_def store_stats_def

lemmas state_defs = not_found_def emit_def cd_def WriteObj_def has_key_def mkdir_def PathString_def
  GetDirectory_def

lemmas merge_defs = bin_coords_def collect_root_def collect_dir_def bin_body_def bin_loops_def
  hist_root_def hist_dir_def param_add_root_def param_root_def param_add_dir_def param_dir_def
  CloneTree_def chain_add_root_def tree_root_def chain_add_dir_def tree_dir_def
  MergeDirectories_def outputFileName_def scan_entry_def close_inputs_def merge_opened_def
  init_state_def MergeSingleGenFiles_def

lemmas input_defs = one_bin_def run_dir_def two_runs_def

section \<open>Histograms that no input holds\<close>

lemma writes_append: "writes (xs @ ys) = writes xs @ writes ys"
  by (induction xs rule: writes.induct) simp_all

lemma writes_emit_Stderr [simp]: "writes (trace (emit (Stderr s) st)) = writes (trace st)"
  by (simp add: emit_def writes_append)

lemma gDirectory_emit [simp]: "gDirectory (emit e st) = gDirectory st"
  by (simp add: emit_def)

lemma collect_root_missing:
  assumes "\<forall>f\<in>set fs. Get (fKeys f) nm = None"
  shows "\<exists>st'. forM fs (collect_root nm i j k) (bc, st) = Inr (bc, st')
           \<and> writes (trace st') = writes (trace st) \<and> gDirectory st' = gDirectory st"
  using assms
proof (induction fs arbitrary: st)
  case Nil
  then show ?case by simp
next
  case (Cons f fs)
  let ?st1 = "emit (Stderr (not_found ''Histogram'' nm (fName f))) st"
  from Cons.prems have step: "collect_root nm i j k f (bc, st) = Inr (bc, ?st1)"
    by (simp add: collect_root_def)
  from Cons.prems have "\<forall>f\<in>set fs. Get (fKeys f) nm = None" by simp
  from Cons.IH [OF this, of ?st1] obtain st' where
    "forM fs (collect_root nm i j k) (bc, ?st1) = Inr (bc, st')"
    "writes (trace st') = writes (trace ?st1)" "gDirectory st' = gDirectory ?st1"
    by blast
  with step show ?case by simp
qed

lemma bins_root_missing:
  assumes "\<forall>f\<in>set fs. Get (fKeys f) nm = None"
  shows "\<exists>st'. forM cs (bin_body (collect_root nm) fs) (hc, st) = Inr (hc, st')
           \<and> writes (trace st') = writes (trace st) \<and> gDirectory st' = gDirectory st"
proof (induction cs arbitrary: st)
  case Nil
  then show ?case by simp
next
  case (Cons c cs)
  obtain i j k where c: "c = (i, j, k)" by (cases c) auto
  from collect_root_missing [OF assms, of i j k "[]" st] obtain st1 where
    s1: "forM fs (collect_root nm i j k) ([], st) = Inr ([], st1)"
    "writes (trace st1) = writes (trace st)" "gDirectory st1 = gDirectory st"
    by blast
  then have step: "bin_body (collect_root nm) fs c (hc, st) = Inr (hc, st1)"
    by (simp add: bin_body_def c store_stats_def)
  from Cons.IH [of st1] s1 step show ?case by auto
qed

lemma collect_dir_missing:
  assumes "\<forall>f\<in>set fs. case GetDirectory inputFiles f sp of None \<Rightarrow> True | Some (p, ks) \<Rightarrow> Get ks nm = None"
  shows "forM fs (collect_dir inputFiles sp nm i j k) (bc, st) = Inr (bc, st)"
  using assms
  by (induction fs) (auto simp: collect_dir_def split: option.splits)

lemma bins_dir_missing:
  assumes "\<forall>f\<in>set fs. case GetDirectory inputFiles f sp of None \<Rightarrow> True | Some (p, ks) \<Rightarrow> Get ks nm = None"
  shows "forM cs (bin_body (collect_dir inputFiles sp nm) fs) (hc, st) = Inr (hc, st)"
proof (induction cs)
  case Nil
  then show ?case by simp
next
  case (Cons c cs)
  obtain i j k where c: "c = (i, j, k)" by (cases c) auto
  have "bin_body (collect_dir inputFiles sp nm) fs c (hc, st) = Inr (hc, st)"
    by (simp add: bin_body_def c store_stats_def collect_dir_missing [OF assms])
  with Cons.IH show ?case by simp
qed

lemma Reset_Retrieve: "RetrieveBinContent (Reset h) b = 0"
  by (simp add: RetrieveBinContent_def Reset_def Let_def)

lemma Reset_content: "GetBinContent (Reset h) i j k = 0"
  by (simp add: GetBinContent_def Reset_Retrieve)

lemma Reset_ErrorCell: "GetBinErrorCell (Reset h) b = 0"
proof -
  have "fSumw2 (Reset h) = map (\<lambda>_. 0) (fSumw2 h)" by (simp add: Reset_def)
  then show ?thesis
    unfolding GetBinErrorCell_def Let_def by (simp add: Reset_Retrieve)
qed

lemma Reset_error: "GetBinError (Reset h) i j k = 0"
  by (simp add: GetBinError_def Reset_ErrorCell)

section \<open>Closing the files\<close>

lemma trace_close_inputs:
  "trace (close_inputs fs st) = trace st @ map (\<lambda>f. Close (fName f)) fs"
  unfolding close_inputs_def
  by (induction fs arbitrary: st) (simp_all add: emit_def)

lemma writes_closes [simp]: "writes (map (\<lambda>f. Close (fName f)) fs) = []"
  by (induction fs) simp_all

section \<open>The root-level strategies\<close>

text \<open>
  At root level every input is asked for the record by name (\<open>file->Get(name)\<close>). The
  three lemmas \<open>root_parameter_sum\<close>, \<open>root_tree_concatenation\<close> and
  \<open>root_histogram_bins\<close> say what is written then, and that one line is put on the
  error stream for every file that lacks the record.
\<close>

lemma report_Nil [simp]: "report [] st = st"
  by (simp add: report_def)

lemma report_emit: "report msgs (emit (Stderr m) st) = report (m # msgs) st"
  by (simp add: report_def emit_def)

lemma gDirectory_report [simp]: "gDirectory (report msgs st) = gDirectory st"
  by (simp add: report_def)

lemma stderr_lines_append: "stderr_lines (xs @ ys) = stderr_lines xs @ stderr_lines ys"
  by (induction xs rule: stderr_lines.induct) simp_all

lemma stderr_lines_map_Stderr [simp]: "stderr_lines (map Stderr msgs) = msgs"
  by (induction msgs) simp_all

lemma writes_map_Stderr [simp]: "writes (map Stderr msgs) = []"
  by (induction msgs) simp_all

lemma writes_report [simp]: "writes (trace (report msgs st)) = writes (trace st)"
  by (simp add: report_def writes_append)

lemma stderr_report [simp]:
  "stderr_lines (trace (report msgs st)) = stderr_lines (trace st) @ msgs"
  by (simp add: report_def stderr_lines_append)

lemma lacking_Nil [simp]: "lacking nm [] = []"
  by (simp add: lacking_def)

lemma lacking_Cons [simp]:
  "lacking nm (f # fs) = (if Get (fKeys f) nm = None then fName f # lacking nm fs else lacking nm fs)"
  by (simp add: lacking_def)

lemma param_values_Nil [simp]: "param_values nm [] = []"
  by (simp add: param_values_def)

lemma param_values_Cons:
  "param_values nm (f # fs) =
     (case Get (fKeys f) nm of Some (Param n (ValDouble d)) \<Rightarrow> [d] | _ \<Rightarrow> []) @ param_values nm fs"
  by (simp add: param_values_def)

lemma foldl_plus_sum_list: "foldl (+) (a::real) vs = a + sum_list vs"
  by (induction vs arbitrary: a) simp_all

lemma param_loop_root:
  assumes "double_params nm fs"
  shows "forM fs (param_add_root nm) (acc, st) =
           Inr (acc + sum_list (param_values nm fs),
                report (map (not_found ''Parameter'' nm) (lacking nm fs)) st)"
  using assms
proof (induction fs arbitrary: acc st)
  case Nil
  then show ?case by simp
next
  case (Cons f fs)
  from Cons.prems have rest: "double_params nm fs" by (simp add: double_params_def)
  show ?case
  proof (cases "Get (fKeys f) nm")
    case None
    then have "param_add_root nm f (acc, st)
        = Inr (acc, emit (Stderr (not_found ''Parameter'' nm (fName f))) st)"
      by (simp add: param_add_root_def)
    with None show ?thesis
      by (simp add: Cons.IH [OF rest] param_values_Cons report_emit)
  next
    case (Some obj)
    with Cons.prems obtain n d where obj: "obj = Param n (ValDouble d)"
      by (auto simp: double_params_def split: TObject.splits pval.splits)
    with Some have "param_add_root nm f (acc, st) = Inr (acc + d, st)"
      by (simp add: param_add_root_def)
    with Some obj show ?thesis
      by (simp add: Cons.IH [OF rest] param_values_Cons)
  qed
qed

lemma root_parameter_sum:
  assumes "double_params nm inputFiles"
  shows "\<exists>st'. param_root inputFiles nm st = Inr st'
      \<and> writes (trace st') = writes (trace st)
            @ [(InOutput [], Param nm (ValDouble (sum_list (param_values nm inputFiles))))]
      \<and> stderr_lines (trace st') = stderr_lines (trace st)
            @ map (not_found ''Parameter'' nm) (lacking nm inputFiles)"
  by (simp add: param_root_def param_loop_root [OF assms] WriteObj_def emit_def cd_def
      writes_append stderr_lines_append)

lemma holding_Nil [simp]: "holding nm [] = []"
  by (simp add: holding_def)

lemma holding_Cons [simp]:
  "holding nm (f # fs) = (if Get (fKeys f) nm = None then holding nm fs else f # holding nm fs)"
  by (simp add: holding_def)

lemma chain_loop_root:
  "foldl (chain_add_root nm) (chain, st) fs =
     (chain @ map (top_name nm) (holding nm fs),
      report (map (not_found ''Tree'' nm) (lacking nm fs)) st)"
proof (induction fs arbitrary: chain st)
  case Nil
  then show ?case by simp
next
  case (Cons f fs)
  show ?case
  proof (cases "Get (fKeys f) nm")
    case None
    then have "chain_add_root nm (chain, st) f
        = (chain, emit (Stderr (not_found ''Tree'' nm (fName f))) st)"
      by (simp add: chain_add_root_def)
    with None show ?thesis by (simp add: Cons.IH report_emit)
  next
    case (Some obj)
    then have "chain_add_root nm (chain, st) f = (chain @ [top_name nm f], st)"
      by (simp add: chain_add_root_def top_name_def)
    with Some show ?thesis by (simp add: Cons.IH)
  qed
qed

lemma rows_in_lacking: "Get (fKeys f) nm = None \<Longrightarrow> rows_in nm f = None"
  by (simp add: rows_in_def)

lemma loaded_top_trees:
  assumes "loads_top_trees ld fs nm"
  shows "List.map_filter ld (map (top_name nm) (holding nm fs)) = List.map_filter (rows_in nm) fs"
  using assms
proof (induction fs)
  case Nil
  then show ?case by (simp add: List.map_filter_simps)
next
  case (Cons f fs)
  from Cons.prems have rest: "loads_top_trees ld fs nm"
    and here: "ld (top_name nm f) = rows_in nm f"
    by (simp_all add: loads_top_trees_def)
  show ?case
    by (simp add: List.map_filter_simps here Cons.IH [OF rest] rows_in_lacking
        split: option.splits)
qed

lemma concat_loaded: "concat (List.map_filter (rows_in nm) fs) = tree_rows nm fs"
proof (induction fs)
  case Nil
  then show ?case by (simp add: List.map_filter_simps tree_rows_def)
next
  case (Cons f fs)
  have "tree_rows nm (f # fs) = (case rows_in nm f of None \<Rightarrow> [] | Some rs \<Rightarrow> rs) @ tree_rows nm fs"
    by (simp add: tree_rows_def rows_in_def split: option.splits TObject.splits)
  with Cons.IH show ?case
    by (simp add: List.map_filter_simps split: option.splits)
qed

lemma loaded_nonempty: "holds_tree nm fs \<Longrightarrow> List.map_filter (rows_in nm) fs \<noteq> []"
  by (induction fs) (auto simp: List.map_filter_simps holds_tree_def split: option.splits)

lemma root_tree_concatenation:
  assumes "loads_top_trees ld inputFiles nm" and "holds_tree nm inputFiles"
  shows "\<exists>st'. tree_root ld inputFiles nm st = Inr st'
      \<and> writes (trace st') = writes (trace st) @ [(InOutput [], Tree nm (tree_rows nm inputFiles))]
      \<and> stderr_lines (trace st') = stderr_lines (trace st)
            @ map (not_found ''Tree'' nm) (lacking nm inputFiles)"
  using loaded_nonempty [OF assms(2)]
  by (simp add: tree_root_def chain_loop_root CloneTree_def loaded_top_trees [OF assms(1)]
      concat_loaded WriteObj_def emit_def cd_def writes_append stderr_lines_append)

lemma bin_values_Nil [simp]: "bin_values nm i j k [] = []"
  by (simp add: bin_values_def)

lemma bin_values_Cons:
  "bin_values nm i j k (f # fs) =
     (case Get (fKeys f) nm of Some (Hist g) \<Rightarrow> [GetBinContent g i j k] | _ \<Rightarrow> [])
       @ bin_values nm i j k fs"
  by (simp add: bin_values_def)

lemma collect_loop_root:
  assumes "hists_only nm fs"
  shows "forM fs (collect_root nm i j k) (bc, st) =
           Inr (bc @ bin_values nm i j k fs,
                report (map (not_found ''Histogram'' nm) (lacking nm fs)) st)"
  using assms
proof (induction fs arbitrary: bc st)
  case Nil
  then show ?case by simp
next
  case (Cons f fs)
  from Cons.prems have rest: "hists_only nm fs" by (simp add: hists_only_def)
  show ?case
  proof (cases "Get (fKeys f) nm")
    case None
    then have "collect_root nm i j k f (bc, st)
        = Inr (bc, emit (Stderr (not_found ''Histogram'' nm (fName f))) st)"
      by (simp add: collect_root_def)
    with None show ?thesis
      by (simp add: Cons.IH [OF rest] bin_values_Cons report_emit)
  next
    case (Some obj)
    with Cons.prems obtain g where obj: "obj = Hist g"
      by (auto simp: hists_only_def split: TObject.splits)
    with Some have "collect_root nm i j k f (bc, st) = Inr (bc @ [GetBinContent g i j k], st)"
      by (simp add: collect_root_def)
    with Some obj show ?thesis
      by (simp add: Cons.IH [OF rest] bin_values_Cons)
  qed
qed

lemma report_report: "report bs (report as st) = report (as @ bs) st"
  by (simp add: report_def)

lemma bins_loop_root:
  assumes "hists_only nm fs"
  shows "forM cs (bin_body (collect_root nm) fs) (hc, st) =
           Inr (foldl (store_bin nm fs) hc cs,
                report (concat (map (\<lambda>c. map (not_found ''Histogram'' nm) (lacking nm fs)) cs)) st)"
proof (induction cs arbitrary: hc st)
  case Nil
  then show ?case by simp
next
  case (Cons c cs)
  obtain i j k where c: "c = (i, j, k)" by (cases c) auto
  have "bin_body (collect_root nm) fs c (hc, st) =
          Inr (store_bin nm fs hc c, report (map (not_found ''Histogram'' nm) (lacking nm fs)) st)"
    by (simp add: bin_body_def c collect_loop_root [OF assms] store_bin_def)
  then show ?case
    by (simp add: Cons.IH report_report)
qed

lemma sum_sq_shift:
  "sum_list (map (\<lambda>v. (v - x) * (v - x)) vs)
     = sum_list (map (\<lambda>v. v * v) vs) - 2 * x * sum_list vs + real (length vs) * (x * x)"
  by (induction vs) (simp_all add: algebra_simps)

lemma foldl_sq_sum_list: "foldl (\<lambda>a v. a + v * v) (a::real) vs = a + sum_list (map (\<lambda>v. v * v) vs)"
  by (induction vs arbitrary: a) simp_all

lemma mean_of_sum_list: "mean_of vs = sum_list vs / real (length vs)"
  by (simp add: mean_of_def foldl_plus_sum_list)

lemma variance_nonneg:
  assumes "vs \<noteq> []"
  shows "0 \<le> sum_list (map (\<lambda>v. v * v) vs) / real (length vs) - mean_of vs * mean_of vs"
proof -
  let ?n = "real (length vs)" and ?m = "mean_of vs"
  from assms have n: "0 < ?n" by simp
  then have S: "sum_list vs = ?n * ?m" by (simp add: mean_of_sum_list)
  have "0 \<le> sum_list (map (\<lambda>v. (v - ?m) * (v - ?m)) vs)"
    by (rule sum_list_nonneg) auto
  also have "\<dots> = sum_list (map (\<lambda>v. v * v) vs) - 2 * ?m * sum_list vs + ?n * (?m * ?m)"
    by (rule sum_sq_shift)
  also have "\<dots> = sum_list (map (\<lambda>v. v * v) vs) - ?n * (?m * ?m)"
    unfolding S by (simp add: algebra_simps)
  finally have "?n * (?m * ?m) \<le> sum_list (map (\<lambda>v. v * v) vs)" by simp
  with n have "?m * ?m \<le> sum_list (map (\<lambda>v. v * v) vs) / ?n"
    by (simp add: pos_le_divide_eq mult.commute)
  then show ?thesis by simp
qed

lemma stddev_of_spec:
  "stddev_of vs = sqrt (sum_list (map (\<lambda>v. v * v) vs) / real (length vs)
                        - (sum_list vs / real (length vs)) * (sum_list vs / real (length vs)))"
  by (simp add: stddev_of_def foldl_sq_sum_list mean_of_sum_list)

lemma stddev_of_nonneg: "vs \<noteq> [] \<Longrightarrow> 0 \<le> stddev_of vs"
  using variance_nonneg [of vs] by (simp add: stddev_of_def foldl_sq_sum_list)

lemma pair_lt: "(a::nat) \<le> n + 1 \<Longrightarrow> b < m \<Longrightarrow> a + (n + 2) * b < (n + 2) * m"
proof -
  assume a: "a \<le> n + 1" and b: "b < m"
  have "a + (n + 2) * b < (n + 2) + (n + 2) * b" using a by simp
  also have "\<dots> = (n + 2) * (b + 1)" by simp
  also have "\<dots> \<le> (n + 2) * m" using b by (intro mult_le_mono2) simp
  finally show ?thesis .
qed

lemma GetBin_lt: "GetBin h i j k < GetNcells h"
proof -
  let ?bx = "min i (fNbinsX h + 1)" and ?by = "min j (fNbinsY h + 1)" and ?bz = "min k (fNbinsZ h + 1)"
  have x: "?bx \<le> fNbinsX h + 1" and y: "?by \<le> fNbinsY h + 1" and z: "?bz < fNbinsZ h + 2"
    by simp_all
  have y2: "?by < fNbinsY h + 2" by simp
  have "?by + (fNbinsY h + 2) * ?bz < (fNbinsY h + 2) * (fNbinsZ h + 2)"
    by (rule pair_lt [OF y z])
  then have three': "?bx + (fNbinsX h + 2) * (?by + (fNbinsY h + 2) * ?bz)
      < (fNbinsX h + 2) * ((fNbinsY h + 2) * (fNbinsZ h + 2))"
    by (rule pair_lt [OF x])
  consider (one) "fDimension h < 2" | (two) "fDimension h = 2" | (three) "2 < fDimension h"
    by linarith
  then show ?thesis
  proof cases
    case one
    then have b: "GetBin h i j k = ?bx" and n: "GetNcells h = fNbinsX h + 2"
      by (simp_all add: GetBin_def GetNcells_def Let_def)
    show ?thesis unfolding b n by simp
  next
    case two
    then have b: "GetBin h i j k = ?bx + (fNbinsX h + 2) * ?by"
      and n: "GetNcells h = (fNbinsX h + 2) * (fNbinsY h + 2)"
      by (simp_all add: GetBin_def GetNcells_def Let_def)
    show ?thesis unfolding b n by (rule pair_lt [OF x y2])
  next
    case three
    then have b: "GetBin h i j k = ?bx + (fNbinsX h + 2) * (?by + (fNbinsY h + 2) * ?bz)"
      by (simp add: GetBin_def Let_def)
    from three have "GetNcells h = (fNbinsX h + 2) * (fNbinsY h + 2) * (fNbinsZ h + 2)"
      unfolding GetNcells_def by simp
    then have n: "GetNcells h = (fNbinsX h + 2) * ((fNbinsY h + 2) * (fNbinsZ h + 2))"
      by (simp only: mult.assoc)
    show ?thesis unfolding b n by (rule three')
  qed
qed

lemma same_shape_GetBin: "same_shape h hc \<Longrightarrow> GetBin hc i j k = GetBin h i j k"
  by (simp add: same_shape_def GetBin_def Let_def)

lemma same_shape_GetNcells: "same_shape h hc \<Longrightarrow> GetNcells hc = GetNcells h"
  by (simp add: same_shape_def GetNcells_def)

lemma in_grid_first: "in_grid h (i, j, k) \<Longrightarrow> fDimension h < 2 \<Longrightarrow> GetBin h i j k = i"
  by (simp add: in_grid_def GetBin_def Let_def)

lemma store_stats_step:
  assumes sh: "same_shape h hc" and g: "in_grid h (i, j, k)" and ne: "vs \<noteq> []"
  shows "same_shape h (store_stats hc i j k vs)"
    and "fArray (store_stats hc i j k vs) = (fArray hc)[GetBin h i j k := mean_of vs]"
    and "fSumw2 (store_stats hc i j k vs) \<noteq> []"
    and "fSumw2 (store_stats hc i j k vs) ! GetBin h i j k = stddev_of vs * stddev_of vs"
    and "fSumw2 hc \<noteq> [] \<Longrightarrow> x \<noteq> GetBin h i j k \<Longrightarrow>
           fSumw2 (store_stats hc i j k vs) ! x = fSumw2 hc ! x"
proof -
  let ?b = "GetBin h i j k"
  let ?h1 = "SetBinContent hc i j k (mean_of vs)"
  have lt: "?b < GetNcells h" by (rule GetBin_lt)
  have len: "length (fArray hc) = GetNcells h" using sh by (simp add: same_shape_def)
  have bin1: "(if fDimension hc < 2 then i else GetBin hc i j k) = ?b"
    using sh g by (auto simp: same_shape_GetBin in_grid_first same_shape_def)
  have h1: "?h1 = hc\<lparr>fEntries := fEntries hc + 1, fArray := (fArray hc)[?b := mean_of vs]\<rparr>"
    unfolding SetBinContent_def Let_def bin1
    using lt len by (simp add: same_shape_GetNcells [OF sh])
  have sh1: "same_shape h ?h1" using sh by (simp add: h1 same_shape_def)
  have rng: "\<not> (fNbinsX ?h1 + 1 < i \<or> fNbinsY ?h1 + 1 < j \<or> fNbinsZ ?h1 + 1 < k)"
    using sh1 g by (auto simp: same_shape_def in_grid_def)
  have bin2: "GetBin ?h1 i j k = ?b" by (rule same_shape_GetBin [OF sh1])
  have nc: "\<not> GetNcells ?h1 \<le> ?b" using lt by (simp add: same_shape_GetNcells [OF sh1])
  let ?h2 = "if fSumw2 ?h1 = [] then Sumw2 ?h1 else ?h1"
  have res: "store_stats hc i j k vs = ?h2\<lparr>fSumw2 := (fSumw2 ?h2)[?b := stddev_of vs * stddev_of vs]\<rparr>"
    using ne rng nc by (simp add: store_stats_def SetBinError_def bin2 Let_def)
  have len2: "length (fSumw2 ?h2) = GetNcells h"
    using sh by (auto simp: h1 Sumw2_def same_shape_def)
  show "same_shape h (store_stats hc i j k vs)"
    using sh1 len2 by (auto simp: res same_shape_def Sumw2_def)
  show "fArray (store_stats hc i j k vs) = (fArray hc)[?b := mean_of vs]"
    by (simp add: res h1 Sumw2_def)
  show "fSumw2 (store_stats hc i j k vs) \<noteq> []"
    using len2 lt by (auto simp: res)
  show "fSumw2 (store_stats hc i j k vs) ! ?b = stddev_of vs * stddev_of vs"
    using len2 lt by (simp add: res)
  show "fSumw2 (store_stats hc i j k vs) ! x = fSumw2 hc ! x"
    if "fSumw2 hc \<noteq> []" "x \<noteq> ?b"
    using that by (simp add: res h1)
qed

lemma same_dimension_hists_only:
  assumes "same_dimension h fs"
  shows "hists_only (hName h) fs"
  unfolding hists_only_def
proof
  fix f assume "f \<in> set fs"
  with assms have "case Get (fKeys f) (hName h) of
      None \<Rightarrow> True | Some (Hist g) \<Rightarrow> fDimension g = fDimension h | Some _ \<Rightarrow> False"
    by (simp add: same_dimension_def)
  then show "case Get (fKeys f) (hName h) of None \<Rightarrow> True | Some (Hist g) \<Rightarrow> True | Some _ \<Rightarrow> False"
    by (cases "Get (fKeys f) (hName h)") (simp_all split: TObject.splits)
qed

lemma holds_hist_values: "holds_hist nm fs \<Longrightarrow> bin_values nm i j k fs \<noteq> []"
  by (induction fs) (auto simp: holds_hist_def bin_values_Cons split: option.splits TObject.splits)

lemma split_pair:
  fixes a b a' b' n :: nat
  assumes "a < n" and "a' < n" and "a + n * b = a' + n * b'"
  shows "a = a' \<and> b = b'"
proof -
  from assms(3) have "(a + n * b) mod n = (a' + n * b') mod n" by simp
  with assms(1,2) have a: "a = a'" by simp
  from assms(3) have "(a + n * b) div n = (a' + n * b') div n" by simp
  with assms(1,2) have "b = b'" by simp
  with a show ?thesis by simp
qed

lemma GetBin_in_grid:
  assumes "in_grid h (i, j, k)"
  shows "GetBin h i j k =
     (if fDimension h < 2 then i
      else if fDimension h = 2 then i + (fNbinsX h + 2) * j
      else i + (fNbinsX h + 2) * (j + (fNbinsY h + 2) * k))"
proof -
  from assms have "min i (fNbinsX h + 1) = i" "min j (fNbinsY h + 1) = j" "min k (fNbinsZ h + 1) = k"
    by (simp_all add: in_grid_def)
  then show ?thesis unfolding GetBin_def Let_def by (simp only:)
qed

lemma same_cell_same_coordinates:
  assumes c: "in_grid h (i, j, k)" and c': "in_grid h (i', j', k')"
    and eq: "GetBin h i j k = GetBin h i' j' k'"
  shows "i = i' \<and> (2 \<le> fDimension h \<longrightarrow> j = j') \<and> (2 < fDimension h \<longrightarrow> k = k')"
proof -
  from c c' have ix: "i < fNbinsX h + 2" "i' < fNbinsX h + 2"
    and jy: "j < fNbinsY h + 2" "j' < fNbinsY h + 2"
    by (simp_all add: in_grid_def)
  consider (one) "fDimension h < 2" | (two) "fDimension h = 2" | (three) "2 < fDimension h"
    by linarith
  then show ?thesis
  proof cases
    case one
    with eq show ?thesis by (simp add: GetBin_in_grid [OF c] GetBin_in_grid [OF c'])
  next
    case two
    with eq have "i + (fNbinsX h + 2) * j = i' + (fNbinsX h + 2) * j'"
      by (simp only: GetBin_in_grid [OF c] GetBin_in_grid [OF c']) simp
    from split_pair [OF ix this] two show ?thesis by simp
  next
    case three
    with eq have "i + (fNbinsX h + 2) * (j + (fNbinsY h + 2) * k)
        = i' + (fNbinsX h + 2) * (j' + (fNbinsY h + 2) * k')"
      by (simp only: GetBin_in_grid [OF c] GetBin_in_grid [OF c']) simp
    from split_pair [OF ix this] have i: "i = i'"
      and "j + (fNbinsY h + 2) * k = j' + (fNbinsY h + 2) * k'" by simp_all
    from split_pair [OF jy this(2)] i show ?thesis by simp
  qed
qed

lemma same_cell_same_content:
  assumes dim: "fDimension g = fDimension h"
    and c: "in_grid h (i, j, k)" and c': "in_grid h (i', j', k')"
    and eq: "GetBin h i j k = GetBin h i' j' k'"
  shows "GetBinContent g i j k = GetBinContent g i' j' k'"
proof -
  from same_cell_same_coordinates [OF c c' eq]
  have i: "i = i'" and j: "2 \<le> fDimension h \<Longrightarrow> j = j'" and k: "2 < fDimension h \<Longrightarrow> k = k'"
    by simp_all
  consider (one) "fDimension h < 2" | (two) "fDimension h = 2" | (three) "2 < fDimension h"
    by linarith
  then have "GetBin g i j k = GetBin g i' j' k'"
  proof cases
    case one
    with dim i show ?thesis by (simp add: GetBin_def Let_def)
  next
    case two
    with dim i j show ?thesis by (simp add: GetBin_def Let_def)
  next
    case three
    with dim i j k show ?thesis by (simp add: GetBin_def Let_def)
  qed
  then show ?thesis by (simp add: GetBinContent_def)
qed

lemma values_by_cell:
  assumes "same_dimension h fs"
    and c: "in_grid h (i, j, k)" and c': "in_grid h (i', j', k')"
    and eq: "GetBin h i j k = GetBin h i' j' k'"
  shows "bin_values (hName h) i j k fs = bin_values (hName h) i' j' k' fs"
  using assms(1)
proof (induction fs)
  case Nil
  then show ?case by simp
next
  case (Cons f fs)
  from Cons.prems have rest: "same_dimension h fs" by (simp add: same_dimension_def)
  have "(case Get (fKeys f) (hName h) of Some (Hist g) \<Rightarrow> [GetBinContent g i j k] | _ \<Rightarrow> [])
      = (case Get (fKeys f) (hName h) of Some (Hist g) \<Rightarrow> [GetBinContent g i' j' k'] | _ \<Rightarrow> [])"
    using Cons.prems same_cell_same_content [OF _ c c' eq]
    by (auto simp: same_dimension_def split: option.splits TObject.splits)
  with Cons.IH [OF rest] show ?case by (simp add: bin_values_Cons)
qed

lemma set_bin_coords: "set (bin_coords a b c) = {(i, j, k). i < a \<and> j < b \<and> k < c}"
  by (fastforce simp: bin_coords_def)

lemma fold_store:
  assumes dim: "same_dimension h fs" and held: "holds_hist (hName h) fs"
    and sh: "same_shape h hc" and grid: "\<forall>c\<in>set cs. in_grid h c"
  shows "same_shape h (foldl (store_bin (hName h) fs) hc cs)
     \<and> (\<forall>i j k. in_grid h (i, j, k) \<and> GetBin h i j k \<in> cell h ` set cs \<longrightarrow>
          fArray (foldl (store_bin (hName h) fs) hc cs) ! GetBin h i j k
            = mean_of (bin_values (hName h) i j k fs)
        \<and> fSumw2 (foldl (store_bin (hName h) fs) hc cs) \<noteq> []
        \<and> fSumw2 (foldl (store_bin (hName h) fs) hc cs) ! GetBin h i j k
            = stddev_of (bin_values (hName h) i j k fs) * stddev_of (bin_values (hName h) i j k fs))"
  using grid
proof (induction cs rule: rev_induct)
  case Nil
  with sh show ?case by simp
next
  case (snoc c cs)
  let ?nm = "hName h"
  let ?old = "foldl (store_bin ?nm fs) hc cs"
  obtain a b d where c: "c = (a, b, d)" by (cases c) auto
  from snoc.prems have gc: "in_grid h (a, b, d)" and gcs: "\<forall>c\<in>set cs. in_grid h c"
    by (simp_all add: c)
  from snoc.IH [OF gcs] have sho: "same_shape h ?old"
    and old: "\<And>i j k. in_grid h (i, j, k) \<Longrightarrow> GetBin h i j k \<in> cell h ` set cs \<Longrightarrow>
          fArray ?old ! GetBin h i j k = mean_of (bin_values ?nm i j k fs)
        \<and> fSumw2 ?old \<noteq> []
        \<and> fSumw2 ?old ! GetBin h i j k
            = stddev_of (bin_values ?nm i j k fs) * stddev_of (bin_values ?nm i j k fs)"
    by blast+
  let ?vs = "bin_values ?nm a b d fs"
  let ?new = "store_stats ?old a b d ?vs"
  have new: "foldl (store_bin ?nm fs) hc (cs @ [c]) = ?new"
    by (simp add: store_bin_def c)
  have ne: "?vs \<noteq> []" by (rule holds_hist_values [OF held])
  note step = store_stats_step [OF sho gc ne]
  have len: "length (fArray ?old) = GetNcells h" using sho by (simp add: same_shape_def)
  have "fArray ?new ! GetBin h i j k = mean_of (bin_values ?nm i j k fs)
        \<and> fSumw2 ?new \<noteq> []
        \<and> fSumw2 ?new ! GetBin h i j k
            = stddev_of (bin_values ?nm i j k fs) * stddev_of (bin_values ?nm i j k fs)"
    if g: "in_grid h (i, j, k)" and mem: "GetBin h i j k \<in> cell h ` set (cs @ [c])" for i j k
  proof (cases "GetBin h i j k = GetBin h a b d")
    case True
    from values_by_cell [OF dim g gc True] have vs: "bin_values ?nm i j k fs = ?vs" .
    have "GetBin h a b d < length (fArray ?old)" using len GetBin_lt [of h a b d] by simp
    then show ?thesis using step(2,3,4) by (simp add: True vs)
  next
    case False
    with mem have before: "GetBin h i j k \<in> cell h ` set cs" by (auto simp: c cell_def)
    from old [OF g before] have o1: "fArray ?old ! GetBin h i j k = mean_of (bin_values ?nm i j k fs)"
      and o2: "fSumw2 ?old \<noteq> []"
      and o3: "fSumw2 ?old ! GetBin h i j k
            = stddev_of (bin_values ?nm i j k fs) * stddev_of (bin_values ?nm i j k fs)"
      by simp_all
    from step(5) [OF o2 False] o3 have "fSumw2 ?new ! GetBin h i j k
            = stddev_of (bin_values ?nm i j k fs) * stddev_of (bin_values ?nm i j k fs)" by simp
    moreover from False o1 have "fArray ?new ! GetBin h i j k = mean_of (bin_values ?nm i j k fs)"
      by (simp add: step(2))
    ultimately show ?thesis using step(3) by simp
  qed
  with step(1) show ?case unfolding new by blast
qed

lemma root_histogram_bins:
  assumes wf: "length (fArray h) = GetNcells h" "fSumw2 h = [] \<or> length (fSumw2 h) = GetNcells h"
    and dim: "same_dimension h inputFiles" and held: "holds_hist (hName h) inputFiles"
  shows "\<exists>st' hc. hist_root inputFiles h st = Inr st'
      \<and> writes (trace st') = writes (trace st) @ [(InOutput [], Hist hc)]
      \<and> same_shape h hc
      \<and> (\<forall>i j k. i \<le> fNbinsX h + 1 \<and> j \<le> fNbinsY h + 1 \<and> k \<le> fNbinsZ h + 1 \<longrightarrow>
            GetBinContent hc i j k
              = sum_list (bin_values (hName h) i j k inputFiles)
                  / real (length (bin_values (hName h) i j k inputFiles))
          \<and> GetBinError hc i j k
              = sqrt (sum_list (map (\<lambda>v. v * v) (bin_values (hName h) i j k inputFiles))
                        / real (length (bin_values (hName h) i j k inputFiles))
                      - (sum_list (bin_values (hName h) i j k inputFiles)
                           / real (length (bin_values (hName h) i j k inputFiles)))
                        * (sum_list (bin_values (hName h) i j k inputFiles)
                           / real (length (bin_values (hName h) i j k inputFiles)))))"
proof -
  let ?nm = "hName h"
  let ?cs = "bin_coords (fNbinsX h + 2) (fNbinsY h + 2) (fNbinsZ h + 2)"
  define hc where "hc = foldl (store_bin ?nm inputFiles) (Reset h) ?cs"
  have sh0: "same_shape h (Reset h)" using wf by (auto simp: same_shape_def Reset_def)
  have grid: "\<forall>c\<in>set ?cs. in_grid h c" by (auto simp: set_bin_coords in_grid_def)
  from fold_store [OF dim held sh0 grid] have sh: "same_shape h hc"
    and cells: "\<And>i j k. in_grid h (i, j, k) \<Longrightarrow> GetBin h i j k \<in> cell h ` set ?cs \<Longrightarrow>
          fArray hc ! GetBin h i j k = mean_of (bin_values ?nm i j k inputFiles)
        \<and> fSumw2 hc \<noteq> []
        \<and> fSumw2 hc ! GetBin h i j k
            = stddev_of (bin_values ?nm i j k inputFiles) * stddev_of (bin_values ?nm i j k inputFiles)"
    unfolding hc_def by blast+
  have nm: "hName (Reset h) = ?nm" "fNbinsX (Reset h) = fNbinsX h" "fNbinsY (Reset h) = fNbinsY h"
    "fNbinsZ (Reset h) = fNbinsZ h" by (simp_all add: Reset_def)
  have "bin_loops (collect_root ?nm) inputFiles (Reset h) (cd (InOutput []) st)
      = Inr (hc, report (concat (map (\<lambda>c. map (not_found ''Histogram'' ?nm) (lacking ?nm inputFiles)) ?cs))
         (cd (InOutput []) st))"
    unfolding bin_loops_def nm hc_def
    by (rule bins_loop_root [OF same_dimension_hists_only [OF dim]])
  then have run: "hist_root inputFiles h st = Inr (WriteObj (Hist hc)
      (report (concat (map (\<lambda>c. map (not_found ''Histogram'' ?nm) (lacking ?nm inputFiles)) ?cs))
         (cd (InOutput []) st)))"
    by (simp add: hist_root_def nm)
  have bins: "GetBinContent hc i j k = mean_of (bin_values ?nm i j k inputFiles)
      \<and> GetBinError hc i j k = stddev_of (bin_values ?nm i j k inputFiles)"
    if "i \<le> fNbinsX h + 1 \<and> j \<le> fNbinsY h + 1 \<and> k \<le> fNbinsZ h + 1" for i j k
  proof -
    from that have g: "in_grid h (i, j, k)" by (simp add: in_grid_def)
    from that have "(i, j, k) \<in> set ?cs" by (simp add: set_bin_coords)
    then have "GetBin h i j k \<in> cell h ` set ?cs" by (force simp: cell_def)
    from cells [OF g this] have a: "fArray hc ! GetBin h i j k = mean_of (bin_values ?nm i j k inputFiles)"
      and s0: "fSumw2 hc \<noteq> []"
      and s: "fSumw2 hc ! GetBin h i j k
        = stddev_of (bin_values ?nm i j k inputFiles) * stddev_of (bin_values ?nm i j k inputFiles)"
      by simp_all
    have lt: "GetBin h i j k < GetNcells h" by (rule GetBin_lt)
    then have m: "min (GetBin h i j k) (GetNcells h - 1) = GetBin h i j k" by simp
    from sh have la: "length (fArray hc) = GetNcells h" and ls: "length (fSumw2 hc) = GetNcells h"
      using s0 by (auto simp: same_shape_def)
    have nonneg: "0 \<le> stddev_of (bin_values ?nm i j k inputFiles)"
      by (rule stddev_of_nonneg [OF holds_hist_values [OF held]])
    have "sqrt (fSumw2 hc ! GetBin h i j k)
        = sqrt (stddev_of (bin_values ?nm i j k inputFiles) * stddev_of (bin_values ?nm i j k inputFiles))"
      by (simp only: s)
    also have "\<dots> = \<bar>stddev_of (bin_values ?nm i j k inputFiles)\<bar>"
      by (rule real_sqrt_abs2)
    also have "\<dots> = stddev_of (bin_values ?nm i j k inputFiles)"
      using nonneg by simp
    finally have e: "sqrt (fSumw2 hc ! GetBin h i j k) = stddev_of (bin_values ?nm i j k inputFiles)" .
    have c1: "GetBinContent hc i j k = fArray hc ! GetBin h i j k"
      using lt la
      by (simp add: GetBinContent_def RetrieveBinContent_def same_shape_GetBin [OF sh]
          same_shape_GetNcells [OF sh] m Let_def)
    have c2: "GetBinError hc i j k = sqrt (fSumw2 hc ! GetBin h i j k)"
      using lt ls s0
      by (simp add: GetBinError_def GetBinErrorCell_def same_shape_GetBin [OF sh]
          same_shape_GetNcells [OF sh] m Let_def)
    show ?thesis by (simp add: c1 c2 a e)
  qed
  have w: "writes (trace (WriteObj (Hist hc)
      (report (concat (map (\<lambda>c. map (not_found ''Histogram'' ?nm) (lacking ?nm inputFiles)) ?cs))
         (cd (InOutput []) st)))) = writes (trace st) @ [(InOutput [], Hist hc)]"
    by (simp add: WriteObj_def emit_def writes_append cd_def report_def)
  show ?thesis
    using run w sh bins
    by (intro exI [of _ "WriteObj (Hist hc) (report (concat (map (\<lambda>c. map (not_found ''Histogram'' ?nm) (lacking ?nm inputFiles)) ?cs)) (cd (InOutput []) st))"] exI [of _ hc])
       (simp add: mean_of_sum_list stddev_of_spec)
qed

section \<open>The names written by a completed merge\<close>

text \<open>
  Every branch of both traversals makes one directory or writes one object, under the
  name of the key it was reached from; only a collection is written as its members. So
  the names in the trace of a completed merge are the names of the first file's keys,
  sub-directories included, in traversal order, with the members in place of a collection
  (\<open>completed_merge_names\<close>). Where an object is written is another matter: that is
  \<open>gDirectory\<close> at the moment of writing.
\<close>

lemma out_names_append: "out_names (xs @ ys) = out_names xs @ out_names ys"
  by (induction xs rule: out_names.induct) simp_all

lemma out_names_emit:
  "out_names (trace (emit e st)) = out_names (trace st) @ out_names [e]"
  by (simp add: emit_def out_names_append)

lemma trace_cd [simp]: "trace (cd c st) = trace st"
  by (simp add: cd_def)

lemma forM_preserves:
  assumes step: "\<And>x s s'. body x s = Inr s' \<Longrightarrow> P s \<Longrightarrow> P s'"
    and run: "forM xs body s = Inr s'" and start: "P s"
  shows "P s'"
  using run start
proof (induction xs arbitrary: s)
  case Nil
  then show ?case by simp
next
  case (Cons x xs)
  from Cons.prems(1) obtain s1 where s1: "body x s = Inr s1" and rest: "forM xs body s1 = Inr s'"
    by (auto split: sum.splits)
  from step [OF s1 Cons.prems(2)] have "P s1" .
  from Cons.IH [OF rest this] show ?case .
qed

lemma collect_root_names:
  "collect_root nm i j k f (bc, st) = Inr (bc', st') \<Longrightarrow> out_names (trace st') = out_names (trace st)"
  by (auto simp: collect_root_def out_names_emit split: option.splits TObject.splits)

lemma collect_dir_names:
  "collect_dir fs sp nm i j k f (bc, st) = Inr (bc', st') \<Longrightarrow> out_names (trace st') = out_names (trace st)"
  by (auto simp: collect_dir_def split: option.splits TObject.splits)

lemma hName_store_stats [simp]: "hName (store_stats hc i j k vs) = hName hc"
  by (simp add: store_stats_def SetBinError_def SetBinContent_def Sumw2_def Let_def)

lemma bin_body_names:
  assumes col: "\<And>i j k f bc st bc' st'. collect i j k f (bc, st) = Inr (bc', st')
                  \<Longrightarrow> out_names (trace st') = out_names (trace st)"
    and run: "bin_body collect fs c (hc, st) = Inr (hc', st')"
  shows "hName hc' = hName hc \<and> out_names (trace st') = out_names (trace st)"
proof -
  obtain i j k where c: "c = (i, j, k)" by (cases c) auto
  from run obtain bc where loop: "forM fs (collect i j k) ([], st) = Inr (bc, st')"
    and hc': "hc' = store_stats hc i j k bc"
    by (auto simp: bin_body_def c split: sum.splits)
  have "out_names (trace (snd (bc, st'))) = out_names (trace st)"
  proof (rule forM_preserves [where P = "\<lambda>s. out_names (trace (snd s)) = out_names (trace st)", OF _ loop])
    show "out_names (trace (snd s')) = out_names (trace st)"
      if "collect i j k x s = Inr s'" "out_names (trace (snd s)) = out_names (trace st)" for x s s'
      using that col [of i j k x "fst s" "snd s" "fst s'" "snd s'"] by simp
  qed simp
  with hc' show ?thesis by simp
qed

lemma bin_loops_names:
  assumes col: "\<And>i j k f bc st bc' st'. collect i j k f (bc, st) = Inr (bc', st')
                  \<Longrightarrow> out_names (trace st') = out_names (trace st)"
    and run: "bin_loops collect fs hc st = Inr (hc', st')"
  shows "hName hc' = hName hc \<and> out_names (trace st') = out_names (trace st)"
proof -
  have "hName (fst (hc', st')) = hName hc \<and> out_names (trace (snd (hc', st'))) = out_names (trace st)"
  proof (rule forM_preserves [where P = "\<lambda>s. hName (fst s) = hName hc
        \<and> out_names (trace (snd s)) = out_names (trace st)", OF _ run [unfolded bin_loops_def]])
    show "hName (fst s') = hName hc \<and> out_names (trace (snd s')) = out_names (trace st)"
      if "bin_body collect fs x s = Inr s'"
        "hName (fst s) = hName hc \<and> out_names (trace (snd s)) = out_names (trace st)" for x s s'
      using that bin_body_names [OF col, where fs = fs and c = x and hc = "fst s" and st = "snd s"
          and hc' = "fst s'" and st' = "snd s'"] by simp
  qed simp
  then show ?thesis by simp
qed

lemma hist_root_names:
  assumes "hist_root fs h st = Inr st'"
  shows "out_names (trace st') = out_names (trace st) @ [hName h]"
proof -
  from assms obtain hc st2 where
    loop: "bin_loops (collect_root (hName (Reset h))) fs (Reset h) (cd (InOutput []) st) = Inr (hc, st2)"
    and st': "st' = WriteObj (Hist hc) st2"
    by (auto simp: hist_root_def Let_def split: sum.splits)
  from bin_loops_names [OF collect_root_names loop]
  have "hName hc = hName (Reset h)" "out_names (trace st2) = out_names (trace st)" by simp_all
  then show ?thesis by (simp add: st' WriteObj_def out_names_emit Reset_def)
qed

lemma hist_dir_names:
  assumes "hist_dir fs sp h st = Inr st'"
  shows "out_names (trace st') = out_names (trace st) @ [hName h]"
proof -
  from assms obtain hc st2 where
    loop: "bin_loops (collect_dir fs sp (hName (Reset h))) fs (Reset h) st = Inr (hc, st2)"
    and st': "st' = WriteObj (Hist hc) st2"
    by (auto simp: hist_dir_def Let_def split: sum.splits)
  from bin_loops_names [OF collect_dir_names loop]
  have "hName hc = hName (Reset h)" "out_names (trace st2) = out_names (trace st)" by simp_all
  then show ?thesis by (simp add: st' WriteObj_def out_names_emit Reset_def)
qed

lemma param_add_root_names:
  "param_add_root nm f (t, st) = Inr (t', st') \<Longrightarrow> out_names (trace st') = out_names (trace st)"
  by (auto simp: param_add_root_def out_names_emit split: option.splits TObject.splits)

lemma param_add_dir_names:
  "param_add_dir fs sp nm f (t, st) = Inr (t', st') \<Longrightarrow> out_names (trace st') = out_names (trace st)"
  by (auto simp: param_add_dir_def out_names_emit split: option.splits TObject.splits)

lemma param_root_names:
  assumes "param_root fs nm st = Inr st'"
  shows "out_names (trace st') = out_names (trace st) @ [nm]"
proof -
  from assms obtain t st1 where loop: "forM fs (param_add_root nm) (0, st) = Inr (t, st1)"
    and st': "st' = WriteObj (Param nm (ValDouble t)) (cd (InOutput []) st1)"
    by (auto simp: param_root_def split: sum.splits)
  have "out_names (trace (snd (t, st1))) = out_names (trace st)"
  proof (rule forM_preserves [where P = "\<lambda>s. out_names (trace (snd s)) = out_names (trace st)", OF _ loop])
    show "out_names (trace (snd s')) = out_names (trace st)"
      if "param_add_root nm x s = Inr s'" "out_names (trace (snd s)) = out_names (trace st)" for x s s'
      using that param_add_root_names [of nm x "fst s" "snd s" "fst s'" "snd s'"] by simp
  qed simp
  then show ?thesis by (simp add: st' WriteObj_def out_names_emit)
qed

lemma param_dir_names:
  assumes "param_dir fs sp od nm st = Inr st'"
  shows "out_names (trace st') = out_names (trace st) @ [nm]"
proof -
  from assms obtain t st1 where loop: "forM fs (param_add_dir fs sp nm) (0, st) = Inr (t, st1)"
    and st': "st' = WriteObj (Param nm (ValDouble t)) (cd (InOutput od) st1)"
    by (auto simp: param_dir_def split: sum.splits)
  have "out_names (trace (snd (t, st1))) = out_names (trace st)"
  proof (rule forM_preserves [where P = "\<lambda>s. out_names (trace (snd s)) = out_names (trace st)", OF _ loop])
    show "out_names (trace (snd s')) = out_names (trace st)"
      if "param_add_dir fs sp nm x s = Inr s'" "out_names (trace (snd s)) = out_names (trace st)" for x s s'
      using that param_add_dir_names [of fs sp nm x "fst s" "snd s" "fst s'" "snd s'"] by simp
  qed simp
  then show ?thesis by (simp add: st' WriteObj_def out_names_emit)
qed

lemma chain_root_names:
  "out_names (trace (snd (foldl (chain_add_root nm) acc fs))) = out_names (trace (snd acc))"
proof (induction fs arbitrary: acc)
  case Nil
  then show ?case by simp
next
  case (Cons f fs)
  have "out_names (trace (snd (chain_add_root nm acc f))) = out_names (trace (snd acc))"
    by (cases acc) (simp add: chain_add_root_def out_names_emit split: option.splits)
  with Cons.IH [of "chain_add_root nm acc f"] show ?case by simp
qed

lemma chain_dir_names:
  "out_names (trace (snd (foldl (chain_add_dir inputFiles sp nm) acc fs))) = out_names (trace (snd acc))"
proof (induction fs arbitrary: acc)
  case Nil
  then show ?case by simp
next
  case (Cons f fs)
  have "out_names (trace (snd (chain_add_dir inputFiles sp nm acc f))) = out_names (trace (snd acc))"
    by (cases acc) (simp add: chain_add_dir_def split: option.splits)
  with Cons.IH [of "chain_add_dir inputFiles sp nm acc f"] show ?case by simp
qed

lemma CloneTree_name: "CloneTree ld nm chain = Some t \<Longrightarrow> GetName t = nm"
  by (auto simp: CloneTree_def Let_def split: if_splits)

lemma tree_root_names:
  assumes "tree_root ld fs nm st = Inr st'"
  shows "out_names (trace st') = out_names (trace st) @ [nm]"
proof -
  obtain chain st1 where f: "foldl (chain_add_root nm) ([], st) fs = (chain, st1)"
    by (cases "foldl (chain_add_root nm) ([], st) fs") auto
  with assms obtain t where t: "CloneTree ld nm chain = Some t"
    and st': "st' = WriteObj t (cd (InOutput []) st1)"
    by (auto simp: tree_root_def split: option.splits)
  from chain_root_names [of nm "([], st)" fs] f
  have "out_names (trace st1) = out_names (trace st)" by simp
  with CloneTree_name [OF t] show ?thesis by (simp add: st' WriteObj_def out_names_emit)
qed

lemma tree_dir_names:
  assumes "tree_dir ld fs sp od nm st = Inr st'"
  shows "out_names (trace st') = out_names (trace st) @ [nm]"
proof -
  obtain chain st1 where f: "foldl (chain_add_dir fs sp nm) ([], st) fs = (chain, st1)"
    by (cases "foldl (chain_add_dir fs sp nm) ([], st) fs") auto
  with assms obtain t where t: "CloneTree ld nm chain = Some t"
    and st': "st' = WriteObj t (cd (InOutput od) st1)"
    by (auto simp: tree_dir_def split: option.splits)
  from chain_dir_names [of fs sp nm "([], st)" fs] f
  have "out_names (trace st1) = out_names (trace st)" by simp
  with CloneTree_name [OF t] show ?thesis by (simp add: st' WriteObj_def out_names_emit)
qed

lemma mkdir_names:
  "mkdir od n st = (Some nd, st1) \<Longrightarrow> out_names (trace st1) = out_names (trace st) @ [n]"
  by (auto simp: mkdir_def out_names_emit split: if_splits)

lemma out_names_written:
  "out_names (trace (foldl (\<lambda>s member. WriteObj member s) st objs))
     = out_names (trace st) @ map GetName objs"
  by (induction objs arbitrary: st) (simp_all add: WriteObj_def out_names_emit)

lemma out_names_Write_virtual:
  "out_names (trace (Write_virtual obj st)) = out_names (trace st) @ map GetName (written_by obj)"
  by (simp add: Write_virtual_def out_names_written)

lemma MergeDirectories_keys_names:
  "MergeDirectories_keys ld fs sp od keys st = Inr st'
     \<Longrightarrow> out_names (trace st') = out_names (trace st) @ preorder keys"
proof (induction ld fs sp od keys st arbitrary: st' rule: MergeDirectories_keys.induct)
  case (1 ld fs sp od st)
  then show ?case by simp
next
  case (2 ld fs sp od h keys st)
  from "2.prems" obtain st1 where s: "hist_dir fs sp h st = Inr st1"
    and r: "MergeDirectories_keys ld fs sp od keys st1 = Inr st'"
    by (auto split: sum.splits)
  from "2.IH" [OF s r] hist_dir_names [OF s] show ?case by simp
next
  case (3 ld fs sp od nm v keys st)
  from "3.prems" obtain st1 where s: "param_dir fs sp od nm st = Inr st1"
    and r: "MergeDirectories_keys ld fs sp od keys st1 = Inr st'"
    by (auto split: sum.splits)
  from "3.IH" [OF s r] param_dir_names [OF s] show ?case by simp
next
  case (4 ld fs sp od nm rs keys st)
  from "4.prems" obtain st1 where s: "tree_dir ld fs sp od nm st = Inr st1"
    and r: "MergeDirectories_keys ld fs sp od keys st1 = Inr st'"
    by (auto split: sum.splits)
  from "4.IH" [OF s r] tree_dir_names [OF s] show ?case by simp
next
  case (5 ld fs sp od nm sub keys st)
  from "5.prems" obtain nd st1 st2 where m: "mkdir od nm st = (Some nd, st1)"
    and s: "MergeDirectories_keys ld fs (fst sp, snd sp @ [nm]) nd sub (cd (InOutput nd) st1) = Inr st2"
    and r: "MergeDirectories_keys ld fs sp od keys st2 = Inr st'"
    by (auto split: prod.splits option.splits sum.splits)
  from "5.IH"(1) [OF m [symmetric] refl s] have "out_names (trace st2) = out_names (trace st1) @ preorder sub"
    by simp
  moreover from "5.IH"(2) [OF m [symmetric] refl s r]
  have "out_names (trace st') = out_names (trace st2) @ preorder keys" .
  ultimately show ?case using mkdir_names [OF m] by simp
next
  case (6 ld fs sp od nm p keys st)
  from "6.prems" have "MergeDirectories_keys ld fs sp od keys
      (WriteObj (Other nm p) (cd (InOutput od) st)) = Inr st'" by simp
  from "6.IH" [OF this] show ?case by (simp add: WriteObj_def out_names_emit)
next
  case (7 ld fs sp od nm ms keys st)
  from "7.prems" have "MergeDirectories_keys ld fs sp od keys
      (Write_virtual (Collection nm ms) (cd (InOutput od) st)) = Inr st'" by simp
  from "7.IH" [OF this] show ?case by (simp add: out_names_Write_virtual)
next
  case (8 ld fs sp od nm keys st)
  then show ?case by simp
qed

lemma root_step_names:
  assumes "root_step ld fs firstName obj st = Inr st'"
  shows "out_names (trace st') = out_names (trace st) @ preorder [obj]"
proof (cases obj)
  case (Hist h)
  with assms hist_root_names [of fs h st st'] show ?thesis by simp
next
  case (Param nm v)
  with assms param_root_names [of fs nm st st'] show ?thesis by simp
next
  case (Tree nm rs)
  with assms tree_root_names [of ld fs nm st st'] show ?thesis by simp
next
  case (Dir nm sub)
  let ?st1 = "cd (InOutput []) (emit (Stderr (''Processing subdirectory: '' @ nm)) st)"
  from assms Dir obtain nd st2 where m: "mkdir [] nm ?st1 = (Some nd, st2)"
    and r: "MergeDirectories_keys ld fs (firstName, [nm]) nd sub (cd (InOutput nd) st2) = Inr st'"
    by (auto simp: MergeDirectories_def Let_def split: prod.splits option.splits)
  from MergeDirectories_keys_names [OF r] mkdir_names [OF m] Dir
  show ?thesis by (simp add: out_names_emit)
next
  case (Other nm p)
  with assms show ?thesis by (auto simp: WriteObj_def out_names_emit)
next
  case (Collection nm ms)
  with assms show ?thesis by (auto simp: out_names_Write_virtual)
next
  case (Unknown nm)
  with assms show ?thesis by simp
qed

lemma root_keys_names:
  "root_keys ld fs firstName totalObjs cnt keys st = Inr st'
     \<Longrightarrow> out_names (trace st') = out_names (trace st) @ preorder keys"
proof (induction keys arbitrary: cnt st)
  case Nil
  then show ?case by simp
next
  case (Cons obj keys)
  from Cons.prems obtain st1 where s: "root_step ld fs firstName obj st = Inr st1"
    and r: "root_keys ld fs firstName totalObjs (cnt + 1) keys (emit (Progress (cnt + 1) totalObjs) st1) = Inr st'"
    by (auto split: sum.splits)
  have split: "preorder (obj # keys) = preorder [obj] @ preorder keys"
    by (cases obj) simp_all
  from Cons.IH [OF r] root_step_names [OF s] show ?case
    by (simp add: out_names_emit split)
qed

lemma out_names_close_inputs [simp]:
  "out_names (trace (close_inputs fs st)) = out_names (trace st)"
  by (simp add: trace_close_inputs out_names_append) (induction fs; simp)

lemma completed_merge_names:
  assumes "merge_opened ld True (firstDir # others) st = Inr st'"
  shows "out_names (trace st') = out_names (trace st) @ preorder (fKeys firstDir)"
proof -
  let ?st2 = "cd (InInput (fName firstDir))
      (emit (Stdout (''Merging files into '' @ outputFileName @ ''...'')) (cd (InOutput []) st))"
  from assms obtain st3 where run: "root_keys ld (firstDir # others) (fName firstDir)
        (length (fKeys firstDir)) 0 (fKeys firstDir) ?st2 = Inr st3"
    and st': "st' = emit (Stdout ''Merging completed successfully.'')
                    (emit (Close outputFileName)
                       (close_inputs (firstDir # others) (emit (Stdout [CHR 0x0A]) st3)))"
    by (auto simp: merge_opened_def Let_def split: sum.splits)
  from root_keys_names [OF run] show ?thesis
    by (simp add: st' out_names_emit)
qed

section \<open>The two checks of the driver\<close>

text \<open>
  With no input, and with an output file that cannot be created, the function returns
  before the traversal, each time with its own line on the error stream; nothing is made
  or written in the output.
\<close>

lemma two_checks_before_any_record:
  "merge_opened ld creatable [] st = Inr (emit (Stderr ''No files found for merging.'') st)
   \<and> merge_opened ld False (firstDir # others) st
       = Inr (close_inputs (firstDir # others)
               (emit (Stderr (''Failed to create the output file '' @ outputFileName)) st))
   \<and> ''No files found for merging.'' \<noteq> ''Failed to create the output file '' @ outputFileName"
  by (simp add: merge_opened_def)

lemma early_returns_write_nothing:
  "out_names (trace (emit (Stderr ''No files found for merging.'') st)) = out_names (trace st)
   \<and> out_names (trace (close_inputs fs
         (emit (Stderr (''Failed to create the output file '' @ outputFileName)) st)))
       = out_names (trace st)"
  by (simp add: out_names_emit)

section \<open>The root-level strategies on small inputs\<close>

lemma root_histogram_bins_instance:
  "\<exists>st' hc. hist_root [\<lparr>fName = ''./a/PairGen.root'', fKeys = [Hist (one_bin ''h'' 2)]\<rparr>,
                        \<lparr>fName = ''./b/PairGen.root'', fKeys = []\<rparr>,
                        \<lparr>fName = ''./c/PairGen.root'', fKeys = [Hist (one_bin ''h'' 4)]\<rparr>]
                 (one_bin ''h'' 2) init_state = Inr st'
      \<and> writes (trace st') = [(InOutput [], Hist hc)]
      \<and> GetBinContent hc 1 0 0 = 3 \<and> GetBinError hc 1 0 0 = 1"
proof -
  let ?fs = "[\<lparr>fName = ''./a/PairGen.root'', fKeys = [Hist (one_bin ''h'' 2)]\<rparr>,
              \<lparr>fName = ''./b/PairGen.root'', fKeys = []\<rparr>,
              \<lparr>fName = ''./c/PairGen.root'', fKeys = [Hist (one_bin ''h'' 4)]\<rparr>]"
  have nm: "hName (one_bin ''h'' 2) = ''h''" by (simp add: one_bin_def)
  have vs: "bin_values ''h'' 1 0 0 ?fs = [2, 4]"
    by (simp add: bin_values_def one_bin_def GetBinContent_def RetrieveBinContent_def GetBin_def
        GetNcells_def Let_def)
  have "length (fArray (one_bin ''h'' 2)) = GetNcells (one_bin ''h'' 2)"
    "fSumw2 (one_bin ''h'' 2) = [] \<or> length (fSumw2 (one_bin ''h'' 2)) = GetNcells (one_bin ''h'' 2)"
    "same_dimension (one_bin ''h'' 2) ?fs" "holds_hist (hName (one_bin ''h'' 2)) ?fs"
    by (simp_all add: one_bin_def GetNcells_def same_dimension_def holds_hist_def)
  from root_histogram_bins [OF this, of init_state] obtain st' hc where
    r: "hist_root ?fs (one_bin ''h'' 2) init_state = Inr st'"
    and w: "writes (trace st') = writes (trace init_state) @ [(InOutput [], Hist hc)]"
    and b: "\<And>i j k. i \<le> fNbinsX (one_bin ''h'' 2) + 1 \<and> j \<le> fNbinsY (one_bin ''h'' 2) + 1
          \<and> k \<le> fNbinsZ (one_bin ''h'' 2) + 1 \<Longrightarrow>
        GetBinContent hc i j k = sum_list (bin_values (hName (one_bin ''h'' 2)) i j k ?fs)
                  / real (length (bin_values (hName (one_bin ''h'' 2)) i j k ?fs))
          \<and> GetBinError hc i j k
              = sqrt (sum_list (map (\<lambda>v. v * v) (bin_values (hName (one_bin ''h'' 2)) i j k ?fs))
                        / real (length (bin_values (hName (one_bin ''h'' 2)) i j k ?fs))
                      - (sum_list (bin_values (hName (one_bin ''h'' 2)) i j k ?fs)
                           / real (length (bin_values (hName (one_bin ''h'' 2)) i j k ?fs)))
                        * (sum_list (bin_values (hName (one_bin ''h'' 2)) i j k ?fs)
                           / real (length (bin_values (hName (one_bin ''h'' 2)) i j k ?fs))))"
    by blast
  have "1 \<le> fNbinsX (one_bin ''h'' 2) + 1 \<and> 0 \<le> fNbinsY (one_bin ''h'' 2) + 1
      \<and> 0 \<le> fNbinsZ (one_bin ''h'' 2) + 1" by simp
  from b [OF this] have "GetBinContent hc 1 0 0 = 3 \<and> GetBinError hc 1 0 0 = 1"
    unfolding nm vs by simp
  with r w show ?thesis by (auto simp: init_state_def)
qed

lemma root_parameter_sum_instance:
  "\<exists>st'. param_root [\<lparr>fName = ''./a/PairGen.root'', fKeys = [Param ''nEvents'' (ValDouble 1000)]\<rparr>,
                      \<lparr>fName = ''./b/PairGen.root'', fKeys = [Param ''nEvents'' (ValDouble 1500)]\<rparr>,
                      \<lparr>fName = ''./c/PairGen.root'', fKeys = []\<rparr>]
              ''nEvents'' init_state = Inr st'
      \<and> writes (trace st') = [(InOutput [], Param ''nEvents'' (ValDouble 2500))]
      \<and> stderr_lines (trace st') = [not_found ''Parameter'' ''nEvents'' ''./c/PairGen.root'']"
  using root_parameter_sum [of "''nEvents''"
      "[\<lparr>fName = ''./a/PairGen.root'', fKeys = [Param ''nEvents'' (ValDouble 1000)]\<rparr>,
        \<lparr>fName = ''./b/PairGen.root'', fKeys = [Param ''nEvents'' (ValDouble 1500)]\<rparr>,
        \<lparr>fName = ''./c/PairGen.root'', fKeys = []\<rparr>]" init_state]
  by (simp add: double_params_def param_values_def init_state_def)

lemma root_tree_concatenation_instance:
  "\<exists>st'. tree_root (file_loader [\<lparr>fName = ''./a/PairGen.root'', fKeys = [Tree ''t'' [[1], [3]]]\<rparr>,
                                  \<lparr>fName = ''./b/PairGen.root'', fKeys = []\<rparr>,
                                  \<lparr>fName = ''./c/PairGen.root'', fKeys = [Tree ''t'' [[2]]]\<rparr>])
              [\<lparr>fName = ''./a/PairGen.root'', fKeys = [Tree ''t'' [[1], [3]]]\<rparr>,
               \<lparr>fName = ''./b/PairGen.root'', fKeys = []\<rparr>,
               \<lparr>fName = ''./c/PairGen.root'', fKeys = [Tree ''t'' [[2]]]\<rparr>]
              ''t'' init_state = Inr st'
      \<and> writes (trace st') = [(InOutput [], Tree ''t'' [[1], [3], [2]])]
      \<and> stderr_lines (trace st') = [not_found ''Tree'' ''t'' ''./b/PairGen.root'']"
  using root_tree_concatenation [of
      "file_loader [\<lparr>fName = ''./a/PairGen.root'', fKeys = [Tree ''t'' [[1], [3]]]\<rparr>,
                    \<lparr>fName = ''./b/PairGen.root'', fKeys = []\<rparr>,
                    \<lparr>fName = ''./c/PairGen.root'', fKeys = [Tree ''t'' [[2]]]\<rparr>]"
      "[\<lparr>fName = ''./a/PairGen.root'', fKeys = [Tree ''t'' [[1], [3]]]\<rparr>,
        \<lparr>fName = ''./b/PairGen.root'', fKeys = []\<rparr>,
        \<lparr>fName = ''./c/PairGen.root'', fKeys = [Tree ''t'' [[2]]]\<rparr>]" "''t''" init_state]
  by (simp add: loads_top_trees_def holds_tree_def rows_in_def top_name_def file_loader_def
      tree_rows_def init_state_def)

section \<open>Lookups in a sub-directory\<close>

text \<open>
  The directory that \<open>MergeDirectories\<close> looks into does not depend on the input file it
  is asked from, and neither does a file's contribution to a bin.
\<close>

lemma nested_lookup_same_for_every_file:
  "GetDirectory inputFiles f sourcePath = GetDirectory inputFiles g sourcePath
   \<and> collect_dir inputFiles sourcePath nm i j k f = collect_dir inputFiles sourcePath nm i j k g"
  by (simp add: GetDirectory_def collect_dir_def)

section \<open>A tree in a sub-directory\<close>

text \<open>
  Under the element names \<open>file.root/d/t\<close> the chain finds the tree \<open>d/t\<close> of each
  file (\<open>proper_nested_names_load\<close>). The names that \<open>MergeDirectories\<close> builds are
  others: whatever the split, each of them loads nothing or the rows of the first file.
\<close>

lemma split_root_at_slash: "splits_at_slash split_root"
proof -
  have "s = f @ ''/'' @ t" if "split_root s = Some (f, t)" for s f t
    using that
  proof (induction s arbitrary: f t)
    case Nil
    then show ?case by simp
  next
    case (Cons c cs)
    show ?case
    proof (cases "take 6 (c # cs) = ''.root/''")
      case True
      with Cons.prems have f: "f = ''.root''" and t: "t = drop 6 (c # cs)" by simp_all
      have "c # cs = take 6 (c # cs) @ drop 6 (c # cs)" by (simp only: append_take_drop_id)
      with True f t show ?thesis by simp
    next
      case False
      with Cons.prems obtain f' where r: "split_root cs = Some (f', t)" and f: "f = c # f'"
        by (auto split: option.splits)
      from Cons.IH [OF r] f show ?thesis by simp
    qed
  qed
  then show ?thesis by (auto simp: splits_at_slash_def)
qed

lemma proper_nested_names_load:
  "chain_loader split_root [run_a, run_b] ''t'' ''./b/PairGen.root/d/t'' = Some [[2]]"
  "CloneTree (chain_loader split_root [run_a, run_b] ''t'') ''t''
     [''./a/PairGen.root/d/t'', ''./b/PairGen.root/d/t''] = Some (Tree ''t'' [[1], [2]])"
  by (simp_all add: named_defs CloneTree_def List.map_filter_simps)

lemma nested_tree_written_from_chain:
  "(case MergeSingleGenFiles ld True
           (two_runs [Dir ''d'' [Tree ''t'' [[1]]]] [Dir ''d'' [Tree ''t'' [[2]]]]) of
      Inl c \<Rightarrow> c = NullPointer
        \<and> CloneTree ld ''t'' [''./a/PairGen.root/./a/PairGen.root:/d/t'',
                               ''./b/PairGen.root/./a/PairGen.root:/d/t''] = None
    | Inr st \<Rightarrow> (\<exists>mergedTree.
          CloneTree ld ''t'' [''./a/PairGen.root/./a/PairGen.root:/d/t'',
                               ''./b/PairGen.root/./a/PairGen.root:/d/t''] = Some mergedTree
        \<and> writes (trace st) = [(InOutput [''d''], mergedTree)]))"
  by (cases "CloneTree ld ''t'' [''./a/PairGen.root/./a/PairGen.root:/d/t'',
                               ''./b/PairGen.root/./a/PairGen.root:/d/t'']")
     (simp_all add: state_defs tree_dir_def chain_add_dir_def MergeDirectories_def outputFileName_def
        scan_entry_def close_inputs_def merge_opened_def init_state_def MergeSingleGenFiles_def
        input_defs Let_def)

lemma first_element_loads_first_file:
  assumes "splits_at_slash split"
  shows "chain_loader split [run_a, run_b] ''t'' ''./a/PairGen.root/./a/PairGen.root:/d/t'' = None
       \<or> chain_loader split [run_a, run_b] ''t'' ''./a/PairGen.root/./a/PairGen.root:/d/t'' = Some [[1]]"
proof (cases "split ''./a/PairGen.root/./a/PairGen.root:/d/t''")
  case None
  then show ?thesis by (simp add: named_defs)
next
  case (Some ft)
  obtain f t where ft: "ft = (f, t)" by (cases ft) auto
  with Some assms have eq: "''./a/PairGen.root/./a/PairGen.root:/d/t'' = f @ ''/'' @ t"
    by (simp add: splits_at_slash_def)
  consider (a) "f = ''./a/PairGen.root''" | (b) "f = ''./b/PairGen.root''"
    | (other) "f \<noteq> ''./a/PairGen.root''" "f \<noteq> ''./b/PairGen.root''" by blast
  then show ?thesis
  proof cases
    case a
    with eq have "t = ''./a/PairGen.root:/d/t''" by simp
    with a Some ft show ?thesis by (simp add: named_defs)
  next
    case b
    with eq show ?thesis by simp
  next
    case other
    with Some ft show ?thesis by (auto simp: chain_loader_def run_a_def run_b_def)
  qed
qed

lemma second_element_loads_first_file:
  assumes "splits_at_slash split"
  shows "chain_loader split [run_a, run_b] ''t'' ''./b/PairGen.root/./a/PairGen.root:/d/t'' = None
       \<or> chain_loader split [run_a, run_b] ''t'' ''./b/PairGen.root/./a/PairGen.root:/d/t'' = Some [[1]]"
proof (cases "split ''./b/PairGen.root/./a/PairGen.root:/d/t''")
  case None
  then show ?thesis by (simp add: named_defs)
next
  case (Some ft)
  obtain f t where ft: "ft = (f, t)" by (cases ft) auto
  with Some assms have eq: "''./b/PairGen.root/./a/PairGen.root:/d/t'' = f @ ''/'' @ t"
    by (simp add: splits_at_slash_def)
  consider (a) "f = ''./a/PairGen.root''" | (b) "f = ''./b/PairGen.root''"
    | (other) "f \<noteq> ''./a/PairGen.root''" "f \<noteq> ''./b/PairGen.root''" by blast
  then show ?thesis
  proof cases
    case a
    with eq show ?thesis by simp
  next
    case b
    with eq have "t = ''./a/PairGen.root:/d/t''" by simp
    with b Some ft show ?thesis by (simp add: named_defs)
  next
    case other
    with Some ft show ?thesis by (auto simp: chain_loader_def run_a_def run_b_def)
  qed
qed

lemma nested_tree_under_first_root_split:
  "\<exists>st. MergeSingleGenFiles (chain_loader split_root [run_a, run_b] ''t'') True
           (two_runs [Dir ''d'' [Tree ''t'' [[1]]]] [Dir ''d'' [Tree ''t'' [[2]]]]) = Inr st
      \<and> writes (trace st) = [(InOutput [''d''], Tree ''t'' [[1], [1]])]"
  by (simp add: named_defs state_defs tree_dir_def chain_add_dir_def MergeDirectories_def
        outputFileName_def scan_entry_def close_inputs_def merge_opened_def init_state_def
        MergeSingleGenFiles_def input_defs CloneTree_def List.map_filter_simps Let_def)

section \<open>Records of other kinds\<close>

text \<open>
  For a record that is no histogram, parameter, tree or directory, both traversals make
  the output directory current and call \<open>obj->Write()\<close> on what was read from the first
  file; the inputs are not looked at. An object of a plain class is written once, under
  its name. A collection is written member by member, also in a sub-directory, and a key
  of an unknown class ends the run there as at root level.
\<close>

lemma plain_object_written_once:
  "root_step ld inputFiles firstName (Other objName p) st
     = Inr \<lparr>gDirectory = InOutput [], trace = trace st @ [Write (InOutput []) (Other objName p)]\<rparr>
   \<and> MergeDirectories_keys ld inputFiles sourcePath outputDir [Other objName p] st
     = Inr \<lparr>gDirectory = InOutput outputDir,
            trace = trace st @ [Write (InOutput outputDir) (Other objName p)]\<rparr>"
  by (simp add: WriteObj_def emit_def cd_def)

lemma nested_collection_and_unknown_class:
  "(\<exists>st. MergeSingleGenFiles ld True
          [run_dir ''./a'' [Dir ''d'' [Collection ''l'' [Other ''a'' ''x'', Other ''b'' ''y'']]]] = Inr st
      \<and> writes (trace st) = [(InOutput [''d''], Other ''a'' ''x''), (InOutput [''d''], Other ''b'' ''y'')])
   \<and> MergeSingleGenFiles ld True [run_dir ''./a'' [Dir ''d'' [Unknown ''u'']]] = Inl NullPointer"
  by (simp add: state_defs merge_defs input_defs Write_virtual_def Let_def)

section \<open>The claims\<close>

text \<open>
  Claim C1 (histogram bins: mean and standard deviation over the inputs that hold the
  record). Two runs hold the histogram \<open>h\<close> in the sub-directory \<open>d\<close>, with 2 and with 4
  in its regular bin. The claim gives the merged bin the value 3 and the uncertainty 1.
  \<open>MergeDirectories\<close> asks every input for the directory \<open>sourceDir->GetPath()\<close>, a path
  that names the first file, so both contributions are read from the first file: the
  merged bin holds 2 with uncertainty 0. At root level the bins are as the claim says,
  in exact arithmetic (\<open>root_histogram_bins\<close>).
\<close>

theorem C1_nested_histogram_read_from_first_file:
  "\<exists>st hc. MergeSingleGenFiles ld True
        (two_runs [Dir ''d'' [Hist (one_bin ''h'' 2)]] [Dir ''d'' [Hist (one_bin ''h'' 4)]]) = Inr st
     \<and> writes (trace st) = [(InOutput [''d''], Hist hc)]
     \<and> GetBinContent hc 1 0 0 = 2 \<and> GetBinError hc 1 0 0 = 0
     \<and> mean_of [2, 4] = 3 \<and> stddev_of [2, 4] = 1"
  by (simp add: th1_defs state_defs merge_defs input_defs upt_rec Let_def)

text \<open>
  Claim C2 (parameters: the sum over the inputs, whatever the numeric subtype). Two runs
  hold the \<open>TParameter<Long64_t>\<close> \<open>nEvents\<close>, 1000 and 1500. The claim gives 2500. The
  program reads both through \<open>TParameter<double>*\<close>, taking the integers' bytes for
  doubles, and writes their sum, 2500 times 2 to the power -1074. For parameters of type
  \<open>double\<close> at root level the output is the sum (\<open>root_parameter_sum\<close>).
\<close>

theorem C2_long64_parameter_read_as_double:
  "\<exists>st. MergeSingleGenFiles ld True
        (two_runs [Param ''nEvents'' (ValLong64 1000)] [Param ''nEvents'' (ValLong64 1500)]) = Inr st
     \<and> writes (trace st) = [(InOutput [], Param ''nEvents'' (ValDouble (2500 / 2 ^ 1074)))]
     \<and> (2500 / 2 ^ 1074 :: real) \<noteq> 1000 + 1500"
  by (simp add: th1_defs state_defs merge_defs input_defs upt_rec Let_def double_of_bits_def)

text \<open>
  Claim C3 (trees: the concatenation of the inputs' rows, in input order). Two runs hold
  the tree \<open>t\<close> in the sub-directory \<open>d\<close>, with the row 1 in the first run and the row 2
  in the second; the claim gives the merged tree the rows 1, 2. \<open>MergeDirectories\<close> adds
  the element names \<open>./a/PairGen.root/./a/PairGen.root:/d/t\<close> and
  \<open>./b/PairGen.root/./a/PairGen.root:/d/t\<close> to the chain: the path of the first file's
  directory, file name included, behind the name of each input. Wherever a chain splits
  such a name at a slash, it finds nothing under it or the tree of the first file. So the
  run ends on the null pointer that \<open>CloneTree\<close> returns, or the merged tree holds the
  row 1 once or twice; the row of the second run is never in it.
\<close>

theorem C3_nested_tree_rows_from_first_file:
  assumes "splits_at_slash split"
  shows "case MergeSingleGenFiles (chain_loader split [run_a, run_b] ''t'') True
           (two_runs [Dir ''d'' [Tree ''t'' [[1]]]] [Dir ''d'' [Tree ''t'' [[2]]]]) of
      Inl c \<Rightarrow> c = NullPointer
    | Inr st \<Rightarrow> writes (trace st) = [(InOutput [''d''], Tree ''t'' [[1]])]
             \<or> writes (trace st) = [(InOutput [''d''], Tree ''t'' [[1], [1]])]"
proof -
  let ?ld = "chain_loader split [run_a, run_b] ''t''"
  let ?names = "[''./a/PairGen.root/./a/PairGen.root:/d/t'',
                 ''./b/PairGen.root/./a/PairGen.root:/d/t'']"
  from first_element_loads_first_file [OF assms] second_element_loads_first_file [OF assms]
  have clone: "CloneTree ?ld ''t'' ?names = None
      \<or> CloneTree ?ld ''t'' ?names = Some (Tree ''t'' [[1]])
      \<or> CloneTree ?ld ''t'' ?names = Some (Tree ''t'' [[1], [1]])"
    by (auto simp: CloneTree_def List.map_filter_simps)
  show ?thesis
  proof (cases "MergeSingleGenFiles ?ld True
           (two_runs [Dir ''d'' [Tree ''t'' [[1]]]] [Dir ''d'' [Tree ''t'' [[2]]]])")
    case (Inl c)
    with nested_tree_written_from_chain [of ?ld] show ?thesis by simp
  next
    case (Inr st)
    with nested_tree_written_from_chain [of ?ld] obtain mergedTree where
      "CloneTree ?ld ''t'' ?names = Some mergedTree"
      "writes (trace st) = [(InOutput [''d''], mergedTree)]" by auto
    with clone Inr show ?thesis by auto
  qed
qed

theorem C3_witness:
  "splits_at_slash split_root
   \<and> (case MergeSingleGenFiles (chain_loader split_root [run_a, run_b] ''t'') True
           (two_runs [Dir ''d'' [Tree ''t'' [[1]]]] [Dir ''d'' [Tree ''t'' [[2]]]]) of
      Inl c \<Rightarrow> c = NullPointer
    | Inr st \<Rightarrow> writes (trace st) = [(InOutput [''d''], Tree ''t'' [[1]])]
             \<or> writes (trace st) = [(InOutput [''d''], Tree ''t'' [[1], [1]])])
   \<and> (\<exists>st. MergeSingleGenFiles (chain_loader split_root [run_a, run_b] ''t'') True
           (two_runs [Dir ''d'' [Tree ''t'' [[1]]]] [Dir ''d'' [Tree ''t'' [[2]]]]) = Inr st
      \<and> writes (trace st) = [(InOutput [''d''], Tree ''t'' [[1], [1]])])"
proof (intro conjI)
  show "splits_at_slash split_root"
    by (rule split_root_at_slash)
  show "case MergeSingleGenFiles (chain_loader split_root [run_a, run_b] ''t'') True
           (two_runs [Dir ''d'' [Tree ''t'' [[1]]]] [Dir ''d'' [Tree ''t'' [[2]]]]) of
      Inl c \<Rightarrow> c = NullPointer
    | Inr st \<Rightarrow> writes (trace st) = [(InOutput [''d''], Tree ''t'' [[1]])]
             \<or> writes (trace st) = [(InOutput [''d''], Tree ''t'' [[1], [1]])]"
    by (rule C3_nested_tree_rows_from_first_file [OF split_root_at_slash])
  show "\<exists>st. MergeSingleGenFiles (chain_loader split_root [run_a, run_b] ''t'') True
           (two_runs [Dir ''d'' [Tree ''t'' [[1]]]] [Dir ''d'' [Tree ''t'' [[2]]]]) = Inr st
      \<and> writes (trace st) = [(InOutput [''d''], Tree ''t'' [[1], [1]])]"
    by (rule nested_tree_under_first_root_split)
qed

text \<open>
  Claim C4 (the output paths are the paths of the first input, each written once). The
  first input holds the directory \<open>d\<close> with the sub-directory \<open>e\<close> and then the histogram
  \<open>h\<close>. The histogram branch of \<open>MergeDirectories\<close> does not call \<open>outputDir->cd()\<close>, the
  recursion into \<open>e\<close> has left \<open>gDirectory\<close> there, and \<open>h\<close> is written to \<open>d/e\<close> and not to
  \<open>d\<close>. What a completed merge does keep are the names and their order, one directory
  made or object written for each key of the first input that is no collection
  (\<open>completed_merge_names\<close>).
\<close>

theorem C4_histogram_after_subdirectory_misplaced:
  "\<exists>st hc. MergeSingleGenFiles ld True
        [run_dir ''./a'' [Dir ''d'' [Dir ''e'' [], Hist (one_bin ''h'' 2)]]] = Inr st
     \<and> writes (trace st) = [(InOutput [''d'', ''e''], Hist hc)] \<and> hName hc = ''h''"
  by (simp add: th1_defs state_defs merge_defs input_defs upt_rec Let_def)

text \<open>
  Claim C5 (two fatal conditions, both checked before any record; no record is fatal).
  The first input holds a histogram \<open>x\<close> and, after it, a directory \<open>x\<close>. Once the merged
  histogram is written, \<open>mkdir\<close> refuses the name and returns the null pointer, which
  \<open>MergeDirectories\<close> dereferences: the run ends there, with no message and no file
  closed. The two checks themselves are made before any record and return with their own
  message (\<open>two_checks_before_any_record\<close>).
\<close>

theorem C5_directory_named_like_a_record_crashes:
  "MergeSingleGenFiles ld True [run_dir ''./a'' [Hist (one_bin ''x'' 2), Dir ''x'' []]]
     = Inl NullPointer"
  by (simp add: th1_defs state_defs merge_defs input_defs upt_rec Let_def)

text \<open>
  Claim C6 (a record missing from a later input is reported and that input left out).
  The directory \<open>d\<close> of the first run holds the histogram \<open>h\<close> and the parameter
  \<open>p = 5\<close>; the directory \<open>d\<close> of the second run is empty. The claim gives a report for
  each record and the sum 5. Nothing is reported: the only line on the error stream is
  the one that announces the directory. And the second input is not left out: the first
  file's value is counted once per input, the sum is 10.
\<close>

theorem C6_nested_missing_record_not_reported:
  "\<exists>st hc. MergeSingleGenFiles ld True
        (two_runs [Dir ''d'' [Hist (one_bin ''h'' 2), Param ''p'' (ValDouble 5)]] [Dir ''d'' []])
          = Inr st
     \<and> writes (trace st) = [(InOutput [''d''], Hist hc), (InOutput [''d''], Param ''p'' (ValDouble 10))]
     \<and> stderr_lines (trace st) = [''Processing subdirectory: d'']"
  by (simp add: th1_defs state_defs merge_defs input_defs upt_rec Let_def)

text \<open>
  Claim C7 (a bin no input contributes to keeps its zero default). When the histogram is
  in none of the files the loops look into, both histogram branches write the reset
  clone of the first file's histogram as it is: every bin, guard bins included, has value
  0 and uncertainty 0, and the dimension, the bin counts and the edges are those of the
  first file's histogram. Nothing fails.
\<close>

theorem C7_no_contribution_leaves_zero_bins:
  "((\<forall>f\<in>set inputFiles. Get (fKeys f) (hName h) = None) \<longrightarrow>
      (\<exists>st'. hist_root inputFiles h st = Inr st'
            \<and> writes (trace st') = writes (trace st) @ [(InOutput [], Hist (Reset h))]))
   \<and> ((\<forall>f\<in>set inputFiles. case GetDirectory inputFiles f sp of
                              None \<Rightarrow> True | Some (p, ks) \<Rightarrow> Get ks (hName h) = None) \<longrightarrow>
      hist_dir inputFiles sp h st = Inr (WriteObj (Hist (Reset h)) st))
   \<and> (\<forall>i j k. GetBinContent (Reset h) i j k = 0 \<and> GetBinError (Reset h) i j k = 0)
   \<and> fDimension (Reset h) = fDimension h \<and> fNbinsX (Reset h) = fNbinsX h
   \<and> fNbinsY (Reset h) = fNbinsY h \<and> fNbinsZ (Reset h) = fNbinsZ h
   \<and> fEdges (Reset h) = fEdges h \<and> GetNcells (Reset h) = GetNcells h"
proof -
  have root: "\<exists>st'. hist_root inputFiles h st = Inr st'
            \<and> writes (trace st') = writes (trace st) @ [(InOutput [], Hist (Reset h))]"
    if miss: "\<forall>f\<in>set inputFiles. Get (fKeys f) (hName h) = None"
  proof -
    have nm: "hName (Reset h) = hName h" by (simp add: Reset_def)
    from bins_root_missing [OF miss, of _ "Reset h" "cd (InOutput []) st"] obtain st1 where
      "bin_loops (collect_root (hName h)) inputFiles (Reset h) (cd (InOutput []) st) = Inr (Reset h, st1)"
      "writes (trace st1) = writes (trace (cd (InOutput []) st))"
      "gDirectory st1 = gDirectory (cd (InOutput []) st)"
      unfolding bin_loops_def by blast
    then show ?thesis
      by (simp add: hist_root_def nm WriteObj_def emit_def cd_def writes_append)
  qed
  have dir: "hist_dir inputFiles sp h st = Inr (WriteObj (Hist (Reset h)) st)"
    if miss: "\<forall>f\<in>set inputFiles. case GetDirectory inputFiles f sp of
                              None \<Rightarrow> True | Some (p, ks) \<Rightarrow> Get ks (hName h) = None"
  proof -
    have nm: "hName (Reset h) = hName h" by (simp add: Reset_def)
    show ?thesis
      by (simp add: hist_dir_def nm bin_loops_def bins_dir_missing [OF miss])
  qed
  have shape: "fDimension (Reset h) = fDimension h \<and> fNbinsX (Reset h) = fNbinsX h
   \<and> fNbinsY (Reset h) = fNbinsY h \<and> fNbinsZ (Reset h) = fNbinsZ h
   \<and> fEdges (Reset h) = fEdges h \<and> GetNcells (Reset h) = GetNcells h"
    by (simp add: Reset_def GetNcells_def)
  from root dir shape show ?thesis
    by (simp add: Reset_content Reset_error)
qed

theorem C7_witness:
  "(\<exists>st'. hist_root [\<lparr>fName = ''./a/PairGen.root'', fKeys = [Dir ''d'' []]\<rparr>] (one_bin ''h'' 2) init_state = Inr st'
        \<and> writes (trace st') = [(InOutput [], Hist (Reset (one_bin ''h'' 2)))])
   \<and> hist_dir [\<lparr>fName = ''./a/PairGen.root'', fKeys = [Dir ''d'' []]\<rparr>] (''./a/PairGen.root'', [''d''])
        (one_bin ''h'' 2) init_state = Inr (WriteObj (Hist (Reset (one_bin ''h'' 2))) init_state)
   \<and> GetBinContent (Reset (one_bin ''h'' 2)) 1 0 0 = 0 \<and> GetBinError (Reset (one_bin ''h'' 2)) 1 0 0 = 0"
  using C7_no_contribution_leaves_zero_bins [of "[\<lparr>fName = ''./a/PairGen.root'', fKeys = [Dir ''d'' []]\<rparr>]"
      "one_bin ''h'' 2" init_state "(''./a/PairGen.root'', [''d''])"]
  by (simp add: one_bin_def init_state_def GetDirectory_def)

text \<open>
  Claim C8 (a record of any other kind is copied as it is from the first input, and no
  error is raised). The first input holds the list \<open>l\<close> with the members \<open>a\<close> and \<open>b\<close>:
  the claim gives the output the record \<open>l\<close>. The last branch calls \<open>obj->Write()\<close>,
  which for a collection writes the members one by one: the output holds \<open>a\<close> and \<open>b\<close>
  and no \<open>l\<close>. And for a key of a class the session does not know, \<open>key->ReadObj()\<close>
  returns the null pointer, which the loop dereferences before it classifies anything:
  the run ends there.
\<close>

theorem C8_collection_and_unknown_class_not_copied:
  "(\<exists>st. MergeSingleGenFiles ld True
          [run_dir ''./a'' [Collection ''l'' [Other ''a'' ''x'', Other ''b'' ''y'']]] = Inr st
      \<and> writes (trace st) = [(InOutput [], Other ''a'' ''x''), (InOutput [], Other ''b'' ''y'')])
   \<and> MergeSingleGenFiles ld True [run_dir ''./a'' [Unknown ''u'']] = Inl NullPointer"
  by (simp add: state_defs merge_defs input_defs Write_virtual_def Let_def)

text \<open>
  Claim C9 (the root-level body and \<open>MergeDirectories\<close> merge a record alike). Both runs
  hold the same histogram at the top and in the directory \<open>d\<close>, with 2 in the first run
  and 4 in the second. The top-level copy is merged to 3 with uncertainty 1, the copy in
  \<open>d\<close> to 2 with uncertainty 0.
\<close>

theorem C9_root_and_nested_differ:
  "\<exists>st h1 h2. MergeSingleGenFiles ld True
        (two_runs [Hist (one_bin ''h'' 2), Dir ''d'' [Hist (one_bin ''h'' 2)]]
                  [Hist (one_bin ''h'' 4), Dir ''d'' [Hist (one_bin ''h'' 4)]]) = Inr st
     \<and> writes (trace st) = [(InOutput [], Hist h1), (InOutput [''d''], Hist h2)]
     \<and> GetBinContent h1 1 0 0 = 3 \<and> GetBinError h1 1 0 0 = 1
     \<and> GetBinContent h2 1 0 0 = 2 \<and> GetBinError h2 1 0 0 = 0"
  by (simp add: th1_defs state_defs merge_defs input_defs upt_rec Let_def)

text \<open>
  Claim C10 (every input is closed on each return after an input was opened). With at
  least one input open, \<open>MergeSingleGenFiles\<close> returns in two ways. When the output file
  cannot be created, the trace ends with the failure message and the closing of every
  input, in input order, and nothing was written. When the traversal completes, the trace
  ends with the closing of every input, the closing of the output file and then the
  success message.
\<close>

theorem C10_inputs_closed_on_every_return:
  assumes "inputFiles \<noteq> []" and "merge_opened ld creatable inputFiles st0 = Inr st"
  shows "(\<not> creatable \<longrightarrow>
            trace st = trace st0 @ [Stderr (''Failed to create the output file '' @ outputFileName)]
                         @ map (\<lambda>f. Close (fName f)) inputFiles
          \<and> writes (trace st) = writes (trace st0))
       \<and> (creatable \<longrightarrow>
            (\<exists>pre. trace st = pre @ map (\<lambda>f. Close (fName f)) inputFiles
                       @ [Close outputFileName, Stdout ''Merging completed successfully.'']))"
proof (cases creatable)
  case False
  with assms show ?thesis
    by (auto simp: merge_opened_def trace_close_inputs emit_def writes_append split: list.splits)
next
  case True
  from assms(1) obtain firstDir others where fs: "inputFiles = firstDir # others"
    by (cases inputFiles) auto
  let ?run = "root_keys ld inputFiles (fName firstDir) (length (fKeys firstDir)) 0 (fKeys firstDir)
      (cd (InInput (fName firstDir))
         (emit (Stdout (''Merging files into '' @ outputFileName @ ''...'')) (cd (InOutput []) st0)))"
  from assms(2) True fs obtain st3 where run: "?run = Inr st3"
    and st: "st = emit (Stdout ''Merging completed successfully.'')
                    (emit (Close outputFileName)
                       (close_inputs inputFiles (emit (Stdout [CHR 0x0A]) st3)))"
    by (auto simp: merge_opened_def Let_def split: sum.splits)
  have "trace st = (trace st3 @ [Stdout [CHR 0x0A]]) @ map (\<lambda>f. Close (fName f)) inputFiles
                       @ [Close outputFileName, Stdout ''Merging completed successfully.'']"
    by (simp add: st emit_def trace_close_inputs)
  with True show ?thesis by blast
qed

theorem C10_witness:
  "(\<exists>st. merge_opened (\<lambda>s. None) False [\<lparr>fName = ''./a/PairGen.root'', fKeys = [Other ''o'' ''x'']\<rparr>] init_state = Inr st
       \<and> trace st = [Stderr ''Failed to create the output file PairGenMerged.root'', Close ''./a/PairGen.root''])
   \<and> (\<exists>st pre. merge_opened (\<lambda>s. None) True [\<lparr>fName = ''./a/PairGen.root'', fKeys = [Other ''o'' ''x'']\<rparr>] init_state = Inr st
       \<and> trace st = pre @ [Close ''./a/PairGen.root'', Close ''PairGenMerged.root'',
                              Stdout ''Merging completed successfully.''])"
proof -
  let ?fs = "[\<lparr>fName = ''./a/PairGen.root'', fKeys = [Other ''o'' ''x'']\<rparr>]"
  obtain s1 where r1: "merge_opened (\<lambda>s. None) False ?fs init_state = Inr s1"
    by (simp add: merge_defs state_defs)
  obtain s2 where r2: "merge_opened (\<lambda>s. None) True ?fs init_state = Inr s2"
    by (simp add: merge_defs state_defs)
  from C10_inputs_closed_on_every_return [of ?fs "\<lambda>s. None" False init_state s1, OF _ r1]
       C10_inputs_closed_on_every_return [of ?fs "\<lambda>s. None" True init_state s2, OF _ r2]
       r1 r2
  show ?thesis by (simp add: init_state_def outputFileName_def)
qed

end
